theory Spec2Isabelle
  imports Main "HOL-Library.Char_ord" "HOL-Library.List_Lexorder"
begin

section \<open>Connectors: descriptors, capabilities, registry\<close>

text \<open>
  The repository holds the package \<^verbatim>\<open>connectors\<close> in two revisions with the same
  behaviour: one type per connector (\<^verbatim>\<open>MySQLSource\<close>, \<^verbatim>\<open>IcebergSource\<close>, ...)
  and one table-driven (\<^verbatim>\<open>simpleSource\<close>, \<^verbatim>\<open>simpleDestination\<close>). The package
  \<^verbatim>\<open>pipeline\<close> is there in two revisions too, which differ in behaviour: one
  with the helpers \<^verbatim>\<open>validatePipelineName\<close>, \<^verbatim>\<open>connectorsFor\<close> and a sorted
  \<^verbatim>\<open>List\<close>, and one with everything inline. Both are embedded; the inline revision's
  functions carry the suffix \<open>_inline\<close>.

  Go strings are byte strings: \<^typ>\<open>string\<close>. A Go \<^verbatim>\<open>int\<close> is \<^typ>\<open>int\<close>: the only
  arithmetic is counting up to a sample size of at most 50. A \<^verbatim>\<open>map[string]string\<close>
  is a partial map, read with \<open>lookup\<close>, which gives the empty string for a missing key
  as Go's indexing does. A Go \<^verbatim>\<open>error\<close> result is \<open>error option\<close> (\<open>None\<close> is
  \<^verbatim>\<open>nil\<close>); a result with a value is \<open>error + 'a\<close>.
\<close>

type_synonym ConnectorType = string

definition SourceType :: ConnectorType where
  "SourceType = ''source''"

definition DestinationType :: ConnectorType where
  "DestinationType = ''destination''"

record Connector =
  Name :: string
  Type :: ConnectorType
  Description :: string
  SupportsDDL :: bool
  MaxParallel :: int

type_synonym config = "string \<rightharpoonup> string"

definition lookup :: "config \<Rightarrow> string \<Rightarrow> string" where
  "lookup c k = (case c k of None \<Rightarrow> [] | Some v \<Rightarrow> v)"

datatype error =
    UnknownSource string
  | UnknownDestination string
  | InvalidPairing
  | IcebergDestination
  | MissingConfig string
  | NameRequired
  | PipelineNotFound
  | ContextCanceled

text \<open>The text of each error, as \<^verbatim>\<open>err.Error()\<close> gives it.\<close>

fun errorString :: "error \<Rightarrow> string" where
  "errorString (UnknownSource n) = ''unknown source connector '' @ n"
| "errorString (UnknownDestination n) = ''unknown destination connector '' @ n"
| "errorString InvalidPairing = ''invalid connector pairing''"
| "errorString IcebergDestination = ''iceberg cannot be a destination''"
| "errorString (MissingConfig k) = ''missing required config '' @ k"
| "errorString NameRequired = ''pipeline name is required''"
| "errorString PipelineNotFound = ''pipeline not found''"
| "errorString ContextCanceled = ''context canceled''"

text \<open>\<^verbatim>\<open>simpleSource\<close> and \<^verbatim>\<open>simpleDestination\<close>: descriptor, required keys, sample size.\<close>

datatype Source = SimpleSource (src_meta: Connector) (src_required: "string list") (sampleRecords: int)

datatype Destination = SimpleDestination (dst_meta: Connector) (dst_required: "string list")

definition newSimpleSource ::
  "string \<Rightarrow> string \<Rightarrow> bool \<Rightarrow> int \<Rightarrow> string list \<Rightarrow> int \<Rightarrow> Source" where
  "newSimpleSource name description supportsDDL maxParallel req sample =
     SimpleSource \<lparr>Name = name, Type = SourceType, Description = description,
                   SupportsDDL = supportsDDL, MaxParallel = maxParallel\<rparr> req sample"

definition newSimpleDestination ::
  "string \<Rightarrow> string \<Rightarrow> bool \<Rightarrow> int \<Rightarrow> string list \<Rightarrow> Destination" where
  "newSimpleDestination name description supportsDDL maxParallel req =
     SimpleDestination \<lparr>Name = name, Type = DestinationType, Description = description,
                        SupportsDDL = supportsDDL, MaxParallel = maxParallel\<rparr> req"

text \<open>
  \<^verbatim>\<open>ensureRequiredFields\<close> (and \<^verbatim>\<open>simulateValidation\<close>, the same loop in the other
  revision): the first required key whose value is empty or absent is reported.
\<close>

fun ensureRequiredFields :: "string list \<Rightarrow> config \<Rightarrow> error option" where
  "ensureRequiredFields [] c = None"
| "ensureRequiredFields (key # rest) c =
     (if lookup c key = [] then Some (MissingConfig key) else ensureRequiredFields rest c)"

definition src_Info :: "Source \<Rightarrow> Connector" where
  "src_Info s = src_meta s"

definition dst_Info :: "Destination \<Rightarrow> Connector" where
  "dst_Info d = dst_meta d"

definition src_Validate :: "Source \<Rightarrow> config \<Rightarrow> error option" where
  "src_Validate s c = ensureRequiredFields (src_required s) c"

definition dst_Validate :: "Destination \<Rightarrow> config \<Rightarrow> error option" where
  "dst_Validate d c = ensureRequiredFields (dst_required d) c"

record Registry =
  sources :: "string \<rightharpoonup> Source"
  destinations :: "string \<rightharpoonup> Destination"

text \<open>\<^verbatim>\<open>registerSources\<close>, \<^verbatim>\<open>registerDestinations\<close>: a later item replaces an earlier one of the same name.\<close>

fun registerSources :: "Source list \<Rightarrow> Registry \<Rightarrow> Registry" where
  "registerSources [] r = r"
| "registerSources (item # items) r =
     registerSources items (r\<lparr>sources := (sources r)(Name (src_Info item) \<mapsto> item)\<rparr>)"

fun registerDestinations :: "Destination list \<Rightarrow> Registry \<Rightarrow> Registry" where
  "registerDestinations [] r = r"
| "registerDestinations (item # items) r =
     registerDestinations items
       (r\<lparr>destinations := (destinations r)(Name (dst_Info item) \<mapsto> item)\<rparr>)"

definition dbFields :: "string list" where
  "dbFields = [''host'', ''port'', ''user'', ''password'', ''database'']"

definition icebergFields :: "string list" where
  "icebergFields = [''catalog'', ''table'', ''warehouse'']"

text \<open>\<^verbatim>\<open>NewRegistry\<close>, table-driven revision.\<close>

definition NewRegistry :: Registry where
  "NewRegistry =
     registerDestinations
       [newSimpleDestination ''mysql'' ''Batch inserts with parallel writers'' True 8 dbFields,
        newSimpleDestination ''postgres'' ''COPY protocol with conflict handling'' True 8 dbFields,
        newSimpleDestination ''sqlserver'' ''Bulk copy optimized for columnstore'' True 4 dbFields]
       (registerSources
         [newSimpleSource ''mysql'' ''High-speed MySQL binlog reader'' True 8 dbFields 50,
          newSimpleSource ''postgres'' ''Logical replication with parallel snapshot'' True 8 dbFields 50,
          newSimpleSource ''sqlserver'' ''SQL Server CDC with snapshot fallback'' True 4 dbFields 50,
          newSimpleSource ''iceberg'' ''Snapshot reads over Apache Iceberg metadata'' False 6
            icebergFields 30]
         \<lparr>sources = Map.empty, destinations = Map.empty\<rparr>)"

text \<open>
  The revision with one type per connector. Each type's \<^verbatim>\<open>Info\<close> returns the descriptor
  that \<^verbatim>\<open>ensureMeta\<close> fills in, \<^verbatim>\<open>Validate\<close> runs \<^verbatim>\<open>simulateValidation\<close> on the
  type's key list and \<^verbatim>\<open>Extract\<close> calls \<^verbatim>\<open>simulateTransfer\<close> with the type's count;
  a value of such a type is given by these three.
\<close>

definition MySQLSource :: Source where
  "MySQLSource = SimpleSource
     \<lparr>Name = ''mysql'', Type = SourceType, Description = ''High-speed MySQL binlog reader'',
      SupportsDDL = True, MaxParallel = 8\<rparr>
     [''host'', ''port'', ''user'', ''password'', ''database''] 50"

definition PostgresSource :: Source where
  "PostgresSource = SimpleSource
     \<lparr>Name = ''postgres'', Type = SourceType,
      Description = ''Logical replication with parallel snapshot'',
      SupportsDDL = True, MaxParallel = 8\<rparr>
     [''host'', ''port'', ''user'', ''password'', ''database''] 50"

definition SQLServerSource :: Source where
  "SQLServerSource = SimpleSource
     \<lparr>Name = ''sqlserver'', Type = SourceType,
      Description = ''SQL Server CDC with snapshot fallback'',
      SupportsDDL = True, MaxParallel = 4\<rparr>
     [''host'', ''port'', ''user'', ''password'', ''database''] 50"

definition IcebergSource :: Source where
  "IcebergSource = SimpleSource
     \<lparr>Name = ''iceberg'', Type = SourceType,
      Description = ''Snapshot reads over Apache Iceberg metadata'',
      SupportsDDL = False, MaxParallel = 6\<rparr>
     [''catalog'', ''table'', ''warehouse''] 30"

definition MySQLDestination :: Destination where
  "MySQLDestination = SimpleDestination
     \<lparr>Name = ''mysql'', Type = DestinationType,
      Description = ''Batch inserts with parallel writers'',
      SupportsDDL = True, MaxParallel = 8\<rparr>
     [''host'', ''port'', ''user'', ''password'', ''database'']"

definition PostgresDestination :: Destination where
  "PostgresDestination = SimpleDestination
     \<lparr>Name = ''postgres'', Type = DestinationType,
      Description = ''COPY protocol with conflict handling'',
      SupportsDDL = True, MaxParallel = 8\<rparr>
     [''host'', ''port'', ''user'', ''password'', ''database'']"

definition SQLServerDestination :: Destination where
  "SQLServerDestination = SimpleDestination
     \<lparr>Name = ''sqlserver'', Type = DestinationType,
      Description = ''Bulk copy optimized for columnstore'',
      SupportsDDL = True, MaxParallel = 4\<rparr>
     [''host'', ''port'', ''user'', ''password'', ''database'']"

definition NewRegistry_typed :: Registry where
  "NewRegistry_typed =
     registerDestinations [MySQLDestination, PostgresDestination, SQLServerDestination]
       (registerSources [MySQLSource, PostgresSource, SQLServerSource, IcebergSource]
         \<lparr>sources = Map.empty, destinations = Map.empty\<rparr>)"

definition SourceByName :: "Registry \<Rightarrow> string \<Rightarrow> error + Source" where
  "SourceByName r name =
     (case sources r name of None \<Rightarrow> Inl (UnknownSource name) | Some s \<Rightarrow> Inr s)"

definition DestinationByName :: "Registry \<Rightarrow> string \<Rightarrow> error + Destination" where
  "DestinationByName r name =
     (case destinations r name of None \<Rightarrow> Inl (UnknownDestination name) | Some d \<Rightarrow> Inr d)"

definition ValidateConnectorPair :: "Connector \<Rightarrow> Connector \<Rightarrow> error option" where
  "ValidateConnectorPair src dst =
     (if Type src \<noteq> SourceType \<or> Type dst \<noteq> DestinationType then Some InvalidPairing
      else if Name src = Name dst \<and> Name src = ''iceberg'' then Some IcebergDestination
      else None)"

section \<open>Pipelines: store, creation, listing\<close>

text \<open>
  \<^verbatim>\<open>strings.TrimSpace\<close> removes leading and trailing white space as Unicode defines it.
  On the bytes of a Go string these are the UTF-8 encodings below: tab, line feed, vertical
  tab, form feed, carriage return, space, U+0085, U+00A0, U+1680, U+2000 to U+200A, U+2028,
  U+2029, U+202F, U+205F and U+3000. No encoding is a prefix or a suffix of another.
\<close>

definition spaceRunes :: "string list" where
  "spaceRunes =
     [[CHR 0x09], [CHR 0x0A], [CHR 0x0B], [CHR 0x0C], [CHR 0x0D], [CHR 0x20],
      [CHR 0xC2, CHR 0x85], [CHR 0xC2, CHR 0xA0], [CHR 0xE1, CHR 0x9A, CHR 0x80],
      [CHR 0xE2, CHR 0x80, CHR 0x80], [CHR 0xE2, CHR 0x80, CHR 0x81],
      [CHR 0xE2, CHR 0x80, CHR 0x82], [CHR 0xE2, CHR 0x80, CHR 0x83],
      [CHR 0xE2, CHR 0x80, CHR 0x84], [CHR 0xE2, CHR 0x80, CHR 0x85],
      [CHR 0xE2, CHR 0x80, CHR 0x86], [CHR 0xE2, CHR 0x80, CHR 0x87],
      [CHR 0xE2, CHR 0x80, CHR 0x88], [CHR 0xE2, CHR 0x80, CHR 0x89],
      [CHR 0xE2, CHR 0x80, CHR 0x8A], [CHR 0xE2, CHR 0x80, CHR 0xA8],
      [CHR 0xE2, CHR 0x80, CHR 0xA9], [CHR 0xE2, CHR 0x80, CHR 0xAF],
      [CHR 0xE2, CHR 0x81, CHR 0x9F], [CHR 0xE3, CHR 0x80, CHR 0x80]]"

text \<open>The width of the white-space rune at the head of \<open>s\<close>, or 0 when there is none.\<close>

definition runeWidth :: "string list \<Rightarrow> string \<Rightarrow> nat" where
  "runeWidth pats s =
     (case find (\<lambda>p. take (length p) s = p) pats of None \<Rightarrow> 0 | Some p \<Rightarrow> length p)"

text \<open>Drop white-space runes from the head; \<open>k\<close> counts the bytes of the current rune still to drop.\<close>

fun dropRunes :: "string list \<Rightarrow> nat \<Rightarrow> string \<Rightarrow> string" where
  "dropRunes pats k [] = []"
| "dropRunes pats (Suc k) (c # cs) = dropRunes pats k cs"
| "dropRunes pats 0 (c # cs) =
     (if runeWidth pats (c # cs) = 0 then c # cs
      else dropRunes pats (runeWidth pats (c # cs) - 1) cs)"

definition TrimSpace :: "string \<Rightarrow> string" where
  "TrimSpace s =
     rev (dropRunes (map rev spaceRunes) 0 (rev (dropRunes spaceRunes 0 s)))"

text \<open>
  \<^verbatim>\<open>Config\<close>: the fields carry their JSON names, since \<^verbatim>\<open>Name\<close> and \<^verbatim>\<open>SourceType\<close>
  are taken by the package \<^verbatim>\<open>connectors\<close>.
\<close>

record Config =
  name :: string
  sourceType :: string
  sourceConfig :: config
  destType :: string
  destConfig :: config

text \<open>A \<^verbatim>\<open>time.Time\<close> is a point on a clock; 0 stands for the zero value.\<close>

type_synonym Time = nat

record Result =
  PipelineName :: string
  StartedAt :: Time
  FinishedAt :: Time
  Records :: int
  Error :: string

text \<open>
  \<^verbatim>\<open>Service\<close>. The lock \<^verbatim>\<open>mu\<close> makes each read and each write of \<^verbatim>\<open>store\<close> atomic;
  the model passes the service through each operation and returns it.
\<close>

record Service =
  registry :: Registry
  store :: "string \<rightharpoonup> Config"

definition NewService :: "Registry \<Rightarrow> Service" where
  "NewService reg = \<lparr>registry = reg, store = Map.empty\<rparr>"

definition validatePipelineName :: "string \<Rightarrow> error option" where
  "validatePipelineName nm = (if TrimSpace nm = [] then Some NameRequired else None)"

definition connectorsFor :: "Service \<Rightarrow> Config \<Rightarrow> error + (Source \<times> Destination)" where
  "connectorsFor s cfg =
     (case SourceByName (registry s) (sourceType cfg) of
        Inl e \<Rightarrow> Inl e
      | Inr src \<Rightarrow>
          (case DestinationByName (registry s) (destType cfg) of
             Inl e \<Rightarrow> Inl e
           | Inr dst \<Rightarrow>
               (case ValidateConnectorPair (src_Info src) (dst_Info dst) of
                  Some e \<Rightarrow> Inl e
                | None \<Rightarrow> Inr (src, dst))))"

text \<open>\<^verbatim>\<open>Create\<close>, revision with helpers (\<^verbatim>\<open>connectors.go\<close>, lines 432 to 451).\<close>

definition Create :: "Config \<Rightarrow> Service \<Rightarrow> error option \<times> Service" where
  "Create cfg s =
     (case validatePipelineName (name cfg) of
        Some e \<Rightarrow> (Some e, s)
      | None \<Rightarrow>
          (case connectorsFor s cfg of
             Inl e \<Rightarrow> (Some e, s)
           | Inr (src, dst) \<Rightarrow>
               (case src_Validate src (sourceConfig cfg) of
                  Some e \<Rightarrow> (Some e, s)
                | None \<Rightarrow>
                    (case dst_Validate dst (destConfig cfg) of
                       Some e \<Rightarrow> (Some e, s)
                     | None \<Rightarrow> (None, s\<lparr>store := (store s)(name cfg \<mapsto> cfg)\<rparr>)))))"

text \<open>
  \<^verbatim>\<open>Create\<close>, inline revision (lines 594 to 620): the name is only compared with the
  empty string.
\<close>

definition Create_inline :: "Config \<Rightarrow> Service \<Rightarrow> error option \<times> Service" where
  "Create_inline cfg s =
     (if name cfg = [] then (Some NameRequired, s)
      else
        (case SourceByName (registry s) (sourceType cfg) of
           Inl e \<Rightarrow> (Some e, s)
         | Inr src \<Rightarrow>
             (case DestinationByName (registry s) (destType cfg) of
                Inl e \<Rightarrow> (Some e, s)
              | Inr dst \<Rightarrow>
                  (case ValidateConnectorPair (src_Info src) (dst_Info dst) of
                     Some e \<Rightarrow> (Some e, s)
                   | None \<Rightarrow>
                       (case src_Validate src (sourceConfig cfg) of
                          Some e \<Rightarrow> (Some e, s)
                        | None \<Rightarrow>
                            (case dst_Validate dst (destConfig cfg) of
                               Some e \<Rightarrow> (Some e, s)
                             | None \<Rightarrow>
                                 (None, s\<lparr>store := (store s)(name cfg \<mapsto> cfg)\<rparr>)))))))"

text \<open>
  \<^verbatim>\<open>List\<close> (lines 454 to 466, and 623 to 632 inline). Go leaves the order in which \<^verbatim>\<open>range\<close> walks a map open, so the walk is a
  parameter: \<open>ks\<close> lists the keys in the order the loop meets them (a key that is not in
  the store yields nothing). The revision with helpers then calls \<^verbatim>\<open>sort.Slice\<close> with
  \<^verbatim>\<open>result[i].Name < result[j].Name\<close>, on bytes; \<open>sort_key\<close> is such a sort, and
  the two can differ only in the order of entries with equal names. The inline
  revision returns the walk as it is.
\<close>

definition List :: "string list \<Rightarrow> Service \<Rightarrow> Config list \<times> Service" where
  "List ks s = (sort_key name (List.map_filter (store s) ks), s)"

definition List_inline :: "string list \<Rightarrow> Service \<Rightarrow> Config list \<times> Service" where
  "List_inline ks s = (List.map_filter (store s) ks, s)"

definition getConfig :: "Service \<Rightarrow> string \<Rightarrow> Config option" where
  "getConfig s nm = store s nm"

section \<open>Extraction, tee and load\<close>

text \<open>
  A record is a \<^verbatim>\<open>map[string]any\<close>; the values that occur are integers and strings.
  It is kept as the list of its entries, read with \<open>map_of\<close>.
  \<open>Itoa\<close> is the decimal text that \<^verbatim>\<open>%d\<close> prints.
\<close>

datatype any = IntValue int | StringValue string

type_synonym row = "(string \<times> any) list"

fun digits :: "nat \<Rightarrow> string" where
  "digits n =
     (if n < 10 then [''0123456789'' ! n] else digits (n div 10) @ [''0123456789'' ! (n mod 10)])"

declare digits.simps [simp del]

definition Itoa :: "int \<Rightarrow> string" where
  "Itoa k = (if k < 0 then CHR ''-'' # digits (nat (- k)) else digits (nat k))"

text \<open>The record sent in iteration \<open>k\<close> of the loop of \<^verbatim>\<open>produceFakeRecords\<close> (\<^verbatim>\<open>simulateTransfer\<close>).\<close>

definition fakeRecord :: "int \<Rightarrow> row" where
  "fakeRecord k =
     [(''id'', IntValue (k + 1)), (''payload'', StringValue (''record-'' @ Itoa (k + 1)))]"

text \<open>
  \<^verbatim>\<open>Run\<close> starts two goroutines and then loads on its own: the producer of
  \<^verbatim>\<open>produceFakeRecords\<close>, the forwarder of \<^verbatim>\<open>Tee\<close>, and the loop of \<^verbatim>\<open>drainRecords\<close>
  (\<^verbatim>\<open>consumeTransfer\<close>) inside \<^verbatim>\<open>Load\<close>. Both channels are unbuffered, so a send and
  its receive are one joint step. The three run interleaved: the model is a machine whose
  steps are the actions below, and a run is a list of actions, the schedule. Which of two
  ready cases a \<^verbatim>\<open>select\<close> takes is open in Go, so both are actions. Cancelling the
  context is an action of the caller. The pacing \<^verbatim>\<open>time.Sleep\<close> changes no state
  and is left out; reads and writes of \<^verbatim>\<open>counter\<close> are taken as atomic.

  The producer: \<open>limit\<close> is the parameter \<^verbatim>\<open>records\<close>, \<open>loop_i\<close> the loop variable,
  \<open>closed\<close> whether the goroutine has returned and closed its channel. \<open>emitted\<close>
  is the history of the records handed over.
\<close>

record producer =
  limit :: int
  loop_i :: int
  closed :: bool
  emitted :: "row list"

definition produceFakeRecords :: "int \<Rightarrow> producer" where
  "produceFakeRecords n = \<lparr>limit = n, loop_i = 0, closed = False, emitted = []\<rparr>"

text \<open>\<^verbatim>\<open>simulateTransfer\<close>, the same function in the other revision.\<close>

definition simulateTransfer :: "int \<Rightarrow> producer" where
  "simulateTransfer n = \<lparr>limit = n, loop_i = 0, closed = False, emitted = []\<rparr>"

text \<open>
  The forwarder of \<^verbatim>\<open>Tee\<close>: waiting in \<^verbatim>\<open>range in\<close>; holding a record before
  \<^verbatim>\<open>fn(record)\<close>; holding it after, blocked in \<^verbatim>\<open>out <- record\<close>; returned, with
  \<^verbatim>\<open>out\<close> closed.
\<close>

datatype tee_state = TeeRange | TeeFn row | TeeSend row | TeeClosed

text \<open>
  \<^verbatim>\<open>Load\<close>: entered, before \<^verbatim>\<open>d.Validate(config)\<close>, whose result is carried; in the
  \<^verbatim>\<open>select\<close> of the drain loop; returned.
\<close>

datatype load_state = LoadEntered "error option" | LoadSelect | LoadReturned "error option"

record transfer =
  ctxDone :: bool
  prod :: producer
  tee :: tee_state
  counter :: int
  load :: load_state
  loaded :: "row list"
  finished :: "(int \<times> error option) option"

datatype action =
    Cancel
  | ProduceSend
  | ProduceCancelled
  | ProduceEnd
  | TeeCount
  | TeeForward
  | TeeEnd
  | LoadValidate
  | LoadCancelled
  | LoadEnd
  | Finish

text \<open>
  One step; \<open>None\<close> when the action is not possible in the state.
  \<^item> \<open>Cancel\<close>: the context is cancelled.
  \<^item> \<open>ProduceSend\<close>: with \<^verbatim>\<open>i < records\<close>, the producer's \<^verbatim>\<open>select\<close> sends the
    record and \<^verbatim>\<open>range in\<close> of the forwarder receives it; then \<^verbatim>\<open>i++\<close>.
  \<^item> \<open>ProduceCancelled\<close>: the producer's \<^verbatim>\<open>select\<close> takes \<^verbatim>\<open><-ctx.Done()\<close> and
    returns; the deferred \<^verbatim>\<open>close(out)\<close> runs.
  \<^item> \<open>ProduceEnd\<close>: \<^verbatim>\<open>i < records\<close> is false, the loop ends, \<^verbatim>\<open>close(out)\<close> runs.
  \<^item> \<open>TeeCount\<close>: \<^verbatim>\<open>fn(record)\<close>, that is \<^verbatim>\<open>counter++\<close>.
  \<^item> \<open>TeeForward\<close>: \<^verbatim>\<open>out <- record\<close> of the forwarder meets \<^verbatim>\<open><-records\<close> in
    the drain loop, which goes round.
  \<^item> \<open>TeeEnd\<close>: \<^verbatim>\<open>range in\<close> finds the channel closed; \<^verbatim>\<open>close(out)\<close> runs.
  \<^item> \<open>LoadValidate\<close>: \<^verbatim>\<open>Load\<close> validates the destination's configuration and
    returns the error or enters the drain loop.
  \<^item> \<open>LoadCancelled\<close>: the drain loop's \<^verbatim>\<open>select\<close> takes \<^verbatim>\<open><-ctx.Done()\<close> and
    returns \<^verbatim>\<open>ctx.Err()\<close>, the error of a cancelled context (a context that ran into
    its deadline gives another, equally non-empty text).
  \<^item> \<open>LoadEnd\<close>: the drain loop receives from the closed channel and returns \<^verbatim>\<open>nil\<close>.
  \<^item> \<open>Finish\<close>: \<^verbatim>\<open>Load\<close> has returned; \<^verbatim>\<open>Run\<close> reads \<^verbatim>\<open>counter\<close>.
\<close>

fun step :: "action \<Rightarrow> transfer \<Rightarrow> transfer option" where
  "step Cancel s =
     (if ctxDone s then None else Some (s\<lparr>ctxDone := True\<rparr>))"
| "step ProduceSend s =
     (if \<not> closed (prod s) \<and> loop_i (prod s) < limit (prod s) \<and> tee s = TeeRange
      then Some (s\<lparr>prod := (prod s)\<lparr>loop_i := loop_i (prod s) + 1,
                                     emitted := emitted (prod s) @ [fakeRecord (loop_i (prod s))]\<rparr>,
                   tee := TeeFn (fakeRecord (loop_i (prod s)))\<rparr>)
      else None)"
| "step ProduceCancelled s =
     (if \<not> closed (prod s) \<and> loop_i (prod s) < limit (prod s) \<and> ctxDone s
      then Some (s\<lparr>prod := (prod s)\<lparr>closed := True\<rparr>\<rparr>)
      else None)"
| "step ProduceEnd s =
     (if \<not> closed (prod s) \<and> \<not> loop_i (prod s) < limit (prod s)
      then Some (s\<lparr>prod := (prod s)\<lparr>closed := True\<rparr>\<rparr>)
      else None)"
| "step TeeCount s =
     (case tee s of
        TeeFn r \<Rightarrow> Some (s\<lparr>counter := counter s + 1, tee := TeeSend r\<rparr>)
      | _ \<Rightarrow> None)"
| "step TeeForward s =
     (case tee s of
        TeeSend r \<Rightarrow>
          (if load s = LoadSelect then Some (s\<lparr>tee := TeeRange, loaded := loaded s @ [r]\<rparr>)
           else None)
      | _ \<Rightarrow> None)"
| "step TeeEnd s =
     (if tee s = TeeRange \<and> closed (prod s) then Some (s\<lparr>tee := TeeClosed\<rparr>) else None)"
| "step LoadValidate s =
     (case load s of
        LoadEntered (Some e) \<Rightarrow> Some (s\<lparr>load := LoadReturned (Some e)\<rparr>)
      | LoadEntered None \<Rightarrow> Some (s\<lparr>load := LoadSelect\<rparr>)
      | _ \<Rightarrow> None)"
| "step LoadCancelled s =
     (if load s = LoadSelect \<and> ctxDone s
      then Some (s\<lparr>load := LoadReturned (Some ContextCanceled)\<rparr>)
      else None)"
| "step LoadEnd s =
     (if load s = LoadSelect \<and> tee s = TeeClosed
      then Some (s\<lparr>load := LoadReturned None\<rparr>)
      else None)"
| "step Finish s =
     (case load s of
        LoadReturned e \<Rightarrow>
          (if finished s = None then Some (s\<lparr>finished := Some (counter s, e)\<rparr>) else None)
      | _ \<Rightarrow> None)"

fun exec :: "action list \<Rightarrow> transfer \<Rightarrow> transfer option" where
  "exec [] s = Some s"
| "exec (a # as) s = (case step a s of None \<Rightarrow> None | Some s' \<Rightarrow> exec as s')"

text \<open>
  The state in which \<^verbatim>\<open>Run\<close> enters \<^verbatim>\<open>Load\<close>: \<^verbatim>\<open>Extract\<close> has started the producer,
  \<^verbatim>\<open>Tee\<close> the forwarder, \<^verbatim>\<open>counter\<close> is 0.
\<close>

definition Tee :: "producer \<Rightarrow> error option \<Rightarrow> transfer" where
  "Tee records v =
     \<lparr>ctxDone = False, prod = records, tee = TeeRange, counter = 0, load = LoadEntered v,
      loaded = [], finished = None\<rparr>"

text \<open>
  \<^verbatim>\<open>dst.Load(ctx, cfg.DestConfig, Tee(records, ...))\<close> under a schedule: the value of
  \<^verbatim>\<open>counter\<close> that \<^verbatim>\<open>Run\<close> reads and the error of \<^verbatim>\<open>Load\<close>; \<open>None\<close> when the
  schedule is not a run of the program up to that read.
\<close>

definition dst_Load ::
  "action list \<Rightarrow> Destination \<Rightarrow> config \<Rightarrow> producer \<Rightarrow> (int \<times> error option) option" where
  "dst_Load sched d c records =
     (case exec sched (Tee records (dst_Validate d c)) of
        None \<Rightarrow> None
      | Some s \<Rightarrow> finished s)"

definition src_Extract :: "Source \<Rightarrow> config \<Rightarrow> error + producer" where
  "src_Extract s c =
     (case src_Validate s c of
        Some e \<Rightarrow> Inl e
      | None \<Rightarrow> Inr (produceFakeRecords (sampleRecords s)))"

section \<open>Running a pipeline\<close>

definition newResult :: "Time \<Rightarrow> string \<Rightarrow> Result" where
  "newResult now nm =
     \<lparr>PipelineName = nm, StartedAt = now, FinishedAt = 0, Records = 0, Error = []\<rparr>"

definition finish :: "Time \<Rightarrow> int \<Rightarrow> error option \<Rightarrow> Result \<Rightarrow> Result" where
  "finish now n runErr r =
     r\<lparr>Records := n,
       Error := (case runErr of Some e \<Rightarrow> errorString e | None \<Rightarrow> []),
       FinishedAt := now\<rparr>"

text \<open>
  \<^verbatim>\<open>Run\<close>, revision with helpers (lines 469 to 492). \<open>t0\<close> and \<open>t1\<close> are the two readings of
  \<^verbatim>\<open>time.Now()\<close>; \<open>sched\<close> is the schedule of the goroutines and of the caller's
  cancellation. The service is returned as it was: \<^verbatim>\<open>Run\<close> only reads it.
\<close>

definition Run ::
  "action list \<Rightarrow> Time \<Rightarrow> Time \<Rightarrow> string \<Rightarrow> Service \<Rightarrow> (Result \<times> Service) option" where
  "Run sched t0 t1 nm s =
     (let result = newResult t0 nm in
      case getConfig s nm of
        None \<Rightarrow> Some (finish t1 0 (Some PipelineNotFound) result, s)
      | Some cfg \<Rightarrow>
          (case connectorsFor s cfg of
             Inl e \<Rightarrow> Some (finish t1 0 (Some e) result, s)
           | Inr (src, dst) \<Rightarrow>
               (case src_Extract src (sourceConfig cfg) of
                  Inl e \<Rightarrow> Some (finish t1 0 (Some e) result, s)
                | Inr records \<Rightarrow>
                    (case dst_Load sched dst (destConfig cfg) records of
                       None \<Rightarrow> None
                     | Some (n, loadErr) \<Rightarrow> Some (finish t1 n loadErr result, s)))))"

text \<open>\<^verbatim>\<open>Run\<close>, inline revision (lines 635 to 683): no call of \<^verbatim>\<open>ValidateConnectorPair\<close>.\<close>

definition Run_inline ::
  "action list \<Rightarrow> Time \<Rightarrow> Time \<Rightarrow> string \<Rightarrow> Service \<Rightarrow> (Result \<times> Service) option" where
  "Run_inline sched t0 t1 nm s =
     (let res = \<lparr>PipelineName = nm, StartedAt = t0, FinishedAt = 0, Records = 0, Error = []\<rparr> in
      case store s nm of
        None \<Rightarrow> Some (res\<lparr>Error := ''pipeline not found'', FinishedAt := t1\<rparr>, s)
      | Some cfg \<Rightarrow>
          (case SourceByName (registry s) (sourceType cfg) of
             Inl e \<Rightarrow> Some (res\<lparr>Error := errorString e, FinishedAt := t1\<rparr>, s)
           | Inr src \<Rightarrow>
               (case DestinationByName (registry s) (destType cfg) of
                  Inl e \<Rightarrow> Some (res\<lparr>Error := errorString e, FinishedAt := t1\<rparr>, s)
                | Inr dst \<Rightarrow>
                    (case src_Extract src (sourceConfig cfg) of
                       Inl e \<Rightarrow> Some (res\<lparr>Error := errorString e, FinishedAt := t1\<rparr>, s)
                     | Inr records \<Rightarrow>
                         (case dst_Load sched dst (destConfig cfg) records of
                            None \<Rightarrow> None
                          | Some (n, loadErr) \<Rightarrow>
                              Some (res\<lparr>Error := (case loadErr of Some e \<Rightarrow> errorString e
                                                      | None \<Rightarrow> Error res),
                                        Records := n, FinishedAt := t1\<rparr>, s))))))"

text \<open>
  A schedule without cancellation, for \<open>n\<close> records: each record is sent, counted and
  forwarded before the next; then the producer, the forwarder and the loader end.
\<close>

definition lockstep :: "nat \<Rightarrow> action list" where
  "lockstep n =
     LoadValidate # concat (replicate n [ProduceSend, TeeCount, TeeForward])
       @ [ProduceEnd, TeeEnd, LoadEnd, Finish]"

section \<open>Example inputs\<close>

definition dbConfig :: config where
  "dbConfig = [''host'' \<mapsto> ''db.internal'', ''port'' \<mapsto> ''5432'', ''user'' \<mapsto> ''etl'',
               ''password'' \<mapsto> ''secret'', ''database'' \<mapsto> ''sales'']"

definition lakeConfig :: config where
  "lakeConfig = [''catalog'' \<mapsto> ''main'', ''table'' \<mapsto> ''events'', ''warehouse'' \<mapsto> ''s3://lake'']"

definition nightlySync :: Config where
  "nightlySync = \<lparr>name = ''nightly-sync'', sourceType = ''mysql'', sourceConfig = dbConfig,
                   destType = ''postgres'', destConfig = dbConfig\<rparr>"

definition lakeCopy :: Config where
  "lakeCopy = \<lparr>name = ''lake-copy'', sourceType = ''iceberg'', sourceConfig = lakeConfig,
                destType = ''iceberg'', destConfig = lakeConfig\<rparr>"

text \<open>A destination descriptor named iceberg, which the registry as built does not hold.\<close>

definition icebergDestination :: Destination where
  "icebergDestination =
     newSimpleDestination ''iceberg'' ''Appends to Apache Iceberg tables'' False 6 icebergFields"


section \<open>Predicates used in the proofs\<close>

text \<open>The record with identifier \<open>j\<close>.\<close>

definition recordOf :: "int \<Rightarrow> row" where
  "recordOf j = [(''id'', IntValue j), (''payload'', StringValue (''record-'' @ Itoa j))]"

text \<open>What the producer has handed over so far is the records 1 to \<open>loop_i\<close>, in order.\<close>

definition hist_ok :: "transfer \<Rightarrow> bool" where
  "hist_ok s \<longleftrightarrow>
     0 \<le> loop_i (prod s) \<and> emitted (prod s) = map recordOf [1..loop_i (prod s)]"

text \<open>The records the forwarder holds and has not counted yet: one or none.\<close>

fun pending :: "tee_state \<Rightarrow> int" where
  "pending (TeeFn r) = 1"
| "pending _ = 0"

fun load_quiet :: "load_state \<Rightarrow> tee_state \<Rightarrow> bool" where
  "load_quiet (LoadEntered v) t = (v = None)"
| "load_quiet LoadSelect t = True"
| "load_quiet (LoadReturned e) t = (e = None \<and> t = TeeClosed)"

text \<open>
  The invariant of a run whose context is never cancelled and whose destination
  configuration is valid, for a producer of \<open>n\<close> records.
\<close>

definition quiet :: "int \<Rightarrow> transfer \<Rightarrow> bool" where
  "quiet n s \<longleftrightarrow>
     \<not> ctxDone s \<and> limit (prod s) = n \<and> 0 \<le> loop_i (prod s) \<and> loop_i (prod s) \<le> max 0 n \<and>
     counter s = loop_i (prod s) - pending (tee s) \<and>
     (closed (prod s) \<longrightarrow> loop_i (prod s) = max 0 n) \<and>
     (tee s = TeeClosed \<longrightarrow> closed (prod s)) \<and>
     load_quiet (load s) (tee s) \<and>
     (finished s = None \<or> finished s = Some (max 0 n, None))"

text \<open>The state after \<open>m\<close> records were each sent, counted and forwarded.\<close>

fun rounds :: "nat \<Rightarrow> transfer \<Rightarrow> transfer" where
  "rounds 0 s = s"
| "rounds (Suc m) s =
     rounds m (s\<lparr>prod := (prod s)\<lparr>loop_i := loop_i (prod s) + 1,
                  emitted := emitted (prod s) @ [fakeRecord (loop_i (prod s))]\<rparr>,
                counter := counter s + 1,
                loaded := loaded s @ [fakeRecord (loop_i (prod s))]\<rparr>)"

text \<open>The producer's part of the invariant: it holds whatever the destination's validation gave.\<close>

definition prod_quiet :: "int \<Rightarrow> transfer \<Rightarrow> bool" where
  "prod_quiet n s \<longleftrightarrow>
     \<not> ctxDone s \<and> limit (prod s) = n \<and> 0 \<le> loop_i (prod s) \<and> loop_i (prod s) \<le> max 0 n \<and>
     (closed (prod s) \<longrightarrow> loop_i (prod s) = max 0 n)"

text \<open>The records the forwarder has counted and not handed on yet: one or none.\<close>

fun unsent :: "tee_state \<Rightarrow> int" where
  "unsent (TeeSend r) = 1"
| "unsent _ = 0"

definition count_ok :: "transfer \<Rightarrow> bool" where
  "count_ok s \<longleftrightarrow> counter s = int (length (loaded s)) + unsent (tee s)"

text \<open>
  A measure that every step lowers: what is left of the context, the producer, the
  forwarder, the loader and the final read.
\<close>

fun teeRank :: "tee_state \<Rightarrow> nat" where
  "teeRank (TeeFn r) = 3"
| "teeRank (TeeSend r) = 2"
| "teeRank TeeRange = 1"
| "teeRank TeeClosed = 0"

fun loadRank :: "load_state \<Rightarrow> nat" where
  "loadRank (LoadEntered v) = 2"
| "loadRank LoadSelect = 1"
| "loadRank (LoadReturned e) = 0"

definition fuel :: "transfer \<Rightarrow> nat" where
  "fuel s =
     (if ctxDone s then 0 else 1) +
     (if closed (prod s) then 0 else 3 * nat (limit (prod s) - loop_i (prod s)) + 1) +
     teeRank (tee s) + loadRank (load s) + (if finished s = None then 1 else 0)"

text \<open>
  A schedule that brings a run to its end from any state, without cancelling: the forwarder
  hands on what it holds, the remaining records go through one by one, and the three
  parties end.
\<close>

fun teeFlush :: "tee_state \<Rightarrow> action list" where
  "teeFlush (TeeFn r) = [TeeCount, TeeForward]"
| "teeFlush (TeeSend r) = [TeeForward]"
| "teeFlush _ = []"

definition drainFrom :: "transfer \<Rightarrow> action list" where
  "drainFrom s =
     teeFlush (tee s) @
     (if tee s = TeeClosed then [LoadEnd, Finish]
      else if closed (prod s) then [TeeEnd, LoadEnd, Finish]
      else concat (replicate (nat (limit (prod s) - loop_i (prod s)))
                     [ProduceSend, TeeCount, TeeForward])
           @ [ProduceEnd, TeeEnd, LoadEnd, Finish])"

definition finishFrom :: "transfer \<Rightarrow> action list" where
  "finishFrom s =
     (case load s of
        LoadReturned e \<Rightarrow> [Finish]
      | LoadEntered (Some e) \<Rightarrow> [LoadValidate, Finish]
      | LoadEntered None \<Rightarrow> LoadValidate # drainFrom s
      | LoadSelect \<Rightarrow> drainFrom s)"

section \<open>Properties of the registry\<close>

lemma NewRegistry_typed_eq: "NewRegistry_typed = NewRegistry"
  by (simp add: NewRegistry_typed_def NewRegistry_def newSimpleSource_def newSimpleDestination_def
      MySQLSource_def PostgresSource_def SQLServerSource_def IcebergSource_def
      MySQLDestination_def PostgresDestination_def SQLServerDestination_def
      dbFields_def icebergFields_def)

lemma NewRegistry_destinations:
  "destinations NewRegistry nm = Some d \<Longrightarrow>
     Type (dst_Info d) = DestinationType \<and> Name (dst_Info d) = nm \<and> nm \<noteq> ''iceberg''"
  by (auto simp: NewRegistry_def newSimpleDestination_def newSimpleSource_def dst_Info_def
      src_Info_def split: if_splits)

lemma NewRegistry_sources:
  "sources NewRegistry nm = Some src \<Longrightarrow>
     Type (src_Info src) = SourceType \<and> Name (src_Info src) = nm \<and>
     (sampleRecords src = 50 \<or> sampleRecords src = 30)"
  by (auto simp: NewRegistry_def newSimpleDestination_def newSimpleSource_def dst_Info_def
      src_Info_def split: if_splits)

lemma NewRegistry_iceberg_source:
  "sources NewRegistry ''iceberg'' =
     Some (newSimpleSource ''iceberg'' ''Snapshot reads over Apache Iceberg metadata'' False 6
            icebergFields 30)"
  by (simp add: NewRegistry_def newSimpleDestination_def newSimpleSource_def dst_Info_def
      src_Info_def)

lemma NewRegistry_mysql_source:
  "sources NewRegistry ''mysql'' =
     Some (newSimpleSource ''mysql'' ''High-speed MySQL binlog reader'' True 8 dbFields 50)"
  by (simp add: NewRegistry_def newSimpleDestination_def newSimpleSource_def dst_Info_def
      src_Info_def)

lemma NewRegistry_postgres_destination:
  "destinations NewRegistry ''postgres'' =
     Some (newSimpleDestination ''postgres'' ''COPY protocol with conflict handling'' True 8
            dbFields)"
  by (simp add: NewRegistry_def newSimpleDestination_def newSimpleSource_def dst_Info_def
      src_Info_def)

lemma NewRegistry_no_iceberg_destination: "destinations NewRegistry ''iceberg'' = None"
  by (simp add: NewRegistry_def newSimpleDestination_def newSimpleSource_def dst_Info_def
      src_Info_def)

text \<open>With the registry as built, every source and destination that resolve form a valid pair.\<close>

lemma NewRegistry_pairs_valid:
  assumes "SourceByName NewRegistry a = Inr src" and "DestinationByName NewRegistry b = Inr dst"
  shows "ValidateConnectorPair (src_Info src) (dst_Info dst) = None"
proof -
  from assms(1) have "sources NewRegistry a = Some src"
    by (simp add: SourceByName_def split: option.splits)
  then have s: "Type (src_Info src) = SourceType"
    by (simp add: NewRegistry_sources)
  from assms(2) have "destinations NewRegistry b = Some dst"
    by (simp add: DestinationByName_def split: option.splits)
  then have d: "Type (dst_Info dst) = DestinationType" "Name (dst_Info dst) \<noteq> ''iceberg''"
    using NewRegistry_destinations by blast+
  from s d show ?thesis
    by (auto simp: ValidateConnectorPair_def)
qed

section \<open>Properties of validation\<close>

lemma TrimSpace_Nil: "TrimSpace [] = []"
  by (simp add: TrimSpace_def)

lemma ensureRequiredFields_find:
  "ensureRequiredFields req c =
     (case find (\<lambda>k. lookup c k = []) req of None \<Rightarrow> None | Some k \<Rightarrow> Some (MissingConfig k))"
  by (induction req) auto

lemma ensureRequiredFields_None_iff:
  "ensureRequiredFields req c = None \<longleftrightarrow> (\<forall>k \<in> set req. lookup c k \<noteq> [])"
  by (induction req) auto

lemma ensureRequiredFields_Some:
  "ensureRequiredFields req c = Some e \<Longrightarrow> \<exists>k \<in> set req. e = MissingConfig k \<and> lookup c k = []"
  by (induction req) (auto split: if_splits)

section \<open>Properties of the transfer\<close>

lemma fakeRecord_recordOf: "fakeRecord k = recordOf (k + 1)"
  by (simp add: fakeRecord_def recordOf_def)

lemma simulateTransfer_eq: "simulateTransfer n = produceFakeRecords n"
  by (simp add: simulateTransfer_def produceFakeRecords_def)

lemma exec_append:
  "exec (as @ bs) s = (case exec as s of None \<Rightarrow> None | Some s' \<Rightarrow> exec bs s')"
  by (induction as arbitrary: s) (auto split: option.splits)

lemma step_hist_ok:
  assumes "step a s = Some s'" and "hist_ok s"
  shows "hist_ok s'"
proof (cases a)
  case ProduceSend
  with assms show ?thesis
    by (auto simp: hist_ok_def fakeRecord_recordOf upto_rec2 split: if_splits)
qed (use assms in \<open>auto simp: hist_ok_def
       split: if_splits tee_state.splits load_state.splits option.splits\<close>)

lemma exec_hist_ok: "exec as s = Some s' \<Longrightarrow> hist_ok s \<Longrightarrow> hist_ok s'"
proof (induction as arbitrary: s)
  case Nil
  then show ?case by simp
next
  case (Cons a as)
  then show ?case
    by (auto split: option.splits dest: step_hist_ok)
qed

lemma Tee_hist_ok: "hist_ok (Tee (produceFakeRecords n) v)"
  by (simp add: hist_ok_def Tee_def produceFakeRecords_def)

lemma step_quiet:
  assumes "step a s = Some s'" and "a \<noteq> Cancel" and "quiet n s"
  shows "quiet n s'"
proof (cases a)
  case Cancel
  with assms show ?thesis by simp
next
  case ProduceSend
  with assms show ?thesis
    by (cases "load s") (auto simp: quiet_def split: if_splits)
next
  case ProduceCancelled
  with assms show ?thesis
    by (auto simp: quiet_def split: if_splits)
next
  case ProduceEnd
  with assms show ?thesis
    by (cases "load s"; cases "tee s") (auto simp: quiet_def split: if_splits)
next
  case TeeCount
  with assms show ?thesis
    by (cases "load s"; cases "tee s") (auto simp: quiet_def split: if_splits)
next
  case TeeForward
  with assms show ?thesis
    by (cases "load s"; cases "tee s") (auto simp: quiet_def split: if_splits)
next
  case TeeEnd
  with assms show ?thesis
    by (cases "load s") (auto simp: quiet_def split: if_splits)
next
  case LoadValidate
  with assms show ?thesis
    by (cases "load s") (auto simp: quiet_def split: if_splits option.splits)
next
  case LoadCancelled
  with assms show ?thesis
    by (auto simp: quiet_def split: if_splits)
next
  case LoadEnd
  with assms show ?thesis
    by (auto simp: quiet_def split: if_splits)
next
  case Finish
  with assms show ?thesis
    by (cases "load s") (auto simp: quiet_def split: if_splits)
qed

lemma exec_quiet: "exec as s = Some s' \<Longrightarrow> Cancel \<notin> set as \<Longrightarrow> quiet n s \<Longrightarrow> quiet n s'"
proof (induction as arbitrary: s)
  case Nil
  then show ?case by simp
next
  case (Cons a as)
  then show ?case
    by (auto split: option.splits dest: step_quiet)
qed

lemma Tee_quiet: "quiet n (Tee (produceFakeRecords n) None)"
  by (simp add: quiet_def Tee_def produceFakeRecords_def)


lemma rounds_fields:
  "tee (rounds m s) = tee s" "load (rounds m s) = load s"
  "closed (prod (rounds m s)) = closed (prod s)"
  "loop_i (prod (rounds m s)) = loop_i (prod s) + int m"
  "limit (prod (rounds m s)) = limit (prod s)"
  "counter (rounds m s) = counter s + int m"
  "finished (rounds m s) = finished s" "ctxDone (rounds m s) = ctxDone s"
  by (induction m arbitrary: s) simp_all

lemma exec_round:
  assumes "tee s = TeeRange" and "load s = LoadSelect" and "\<not> closed (prod s)"
    and "loop_i (prod s) < limit (prod s)"
  shows "exec [ProduceSend, TeeCount, TeeForward] s = Some (rounds 1 s)"
  using assms by simp

lemma exec_rounds:
  assumes "tee s = TeeRange" and "load s = LoadSelect" and "\<not> closed (prod s)"
    and "0 < m \<longrightarrow> loop_i (prod s) + int m \<le> limit (prod s)"
  shows "exec (concat (replicate m [ProduceSend, TeeCount, TeeForward])) s = Some (rounds m s)"
  using assms
proof (induction m arbitrary: s)
  case 0
  then show ?case by simp
next
  case (Suc m)
  have one: "exec [ProduceSend, TeeCount, TeeForward] s = Some (rounds 1 s)"
    using Suc.prems by (intro exec_round) simp_all
  have rest: "exec (concat (replicate m [ProduceSend, TeeCount, TeeForward])) (rounds 1 s) =
      Some (rounds m (rounds 1 s))"
    using Suc.prems by (intro Suc.IH) simp_all
  have "concat (replicate (Suc m) [ProduceSend, TeeCount, TeeForward]) =
      [ProduceSend, TeeCount, TeeForward] @ concat (replicate m [ProduceSend, TeeCount, TeeForward])"
    by simp
  then have "exec (concat (replicate (Suc m) [ProduceSend, TeeCount, TeeForward])) s =
      Some (rounds m (rounds 1 s))"
    using one rest by (simp only: exec_append option.case)
  then show ?case by simp
qed

lemma exec_ending:
  assumes "tee s = TeeRange" and "load s = LoadSelect" and "\<not> closed (prod s)"
    and "\<not> loop_i (prod s) < limit (prod s)" and "finished s = None"
  shows "exec [ProduceEnd, TeeEnd, LoadEnd, Finish] s =
     Some (s\<lparr>prod := (prod s)\<lparr>closed := True\<rparr>, tee := TeeClosed, load := LoadReturned None,
             finished := Some (counter s, None)\<rparr>)"
  using assms by simp

lemma exec_lockstep:
  "\<exists>s'. exec (lockstep (nat n)) (Tee (produceFakeRecords n) None) = Some s' \<and>
         finished s' = Some (max 0 n, None) \<and> closed (prod s')"
proof -
  let ?s0 = "Tee (produceFakeRecords n) None"
  let ?s1 = "?s0\<lparr>load := LoadSelect\<rparr>"
  let ?mid = "concat (replicate (nat n) [ProduceSend, TeeCount, TeeForward])"
  let ?s2 = "rounds (nat n) ?s1"
  let ?s3 = "?s2\<lparr>prod := (prod ?s2)\<lparr>closed := True\<rparr>, tee := TeeClosed, load := LoadReturned None,
             finished := Some (counter ?s2, None)\<rparr>"
  have v: "exec [LoadValidate] ?s0 = Some ?s1"
    by (simp add: Tee_def)
  have m: "exec ?mid ?s1 = Some ?s2"
    by (intro exec_rounds) (simp_all add: Tee_def produceFakeRecords_def)
  have e: "exec [ProduceEnd, TeeEnd, LoadEnd, Finish] ?s2 = Some ?s3"
    by (intro exec_ending) (simp_all add: rounds_fields Tee_def produceFakeRecords_def)
  have "lockstep (nat n) = [LoadValidate] @ ?mid @ [ProduceEnd, TeeEnd, LoadEnd, Finish]"
    by (simp add: lockstep_def)
  then have "exec (lockstep (nat n)) ?s0 = Some ?s3"
    using v m e by (simp only: exec_append option.case)
  moreover have "finished ?s3 = Some (max 0 n, None) \<and> closed (prod ?s3)"
    by (simp add: rounds_fields Tee_def produceFakeRecords_def)
  ultimately show ?thesis by blast
qed

lemma dst_Load_lockstep:
  assumes "dst_Validate d c = None"
  shows "dst_Load (lockstep (nat n)) d c (produceFakeRecords n) = Some (max 0 n, None)"
  using exec_lockstep [of n] assms by (auto simp: dst_Load_def)

lemma dst_Load_invalid:
  assumes "dst_Validate d c = Some e"
  shows "dst_Load [LoadValidate, Finish] d c p = Some (0, Some e)"
  using assms by (simp add: dst_Load_def Tee_def)

lemma dst_Load_returns: "\<exists>sched r. dst_Load sched d c (produceFakeRecords n) = Some r"
proof (cases "dst_Validate d c")
  case None
  then show ?thesis using dst_Load_lockstep by blast
next
  case (Some e)
  then show ?thesis using dst_Load_invalid by blast
qed

lemma dst_Load_uncancelled:
  assumes "dst_Validate d c = None" and "Cancel \<notin> set sched"
    and "dst_Load sched d c (produceFakeRecords n) = Some r"
  shows "r = (max 0 n, None)"
proof -
  from assms(1,3) obtain s' where s': "exec sched (Tee (produceFakeRecords n) None) = Some s'"
    "finished s' = Some r"
    by (auto simp: dst_Load_def split: option.splits)
  from s'(1) assms(2) have "quiet n s'"
    using exec_quiet Tee_quiet by blast
  with s'(2) show ?thesis
    by (simp add: quiet_def)
qed

lemma step_prod_quiet:
  assumes "step a s = Some s'" and "a \<noteq> Cancel" and "prod_quiet n s"
  shows "prod_quiet n s'"
  using assms
  by (cases a) (auto simp: prod_quiet_def split: if_splits tee_state.splits load_state.splits option.splits)

lemma exec_prod_quiet:
  "exec as s = Some s' \<Longrightarrow> Cancel \<notin> set as \<Longrightarrow> prod_quiet n s \<Longrightarrow> prod_quiet n s'"
proof (induction as arbitrary: s)
  case Nil
  then show ?case by simp
next
  case (Cons a as)
  then show ?case
    by (auto split: option.splits dest: step_prod_quiet)
qed

lemma Tee_prod_quiet: "prod_quiet n (Tee (produceFakeRecords n) v)"
  by (simp add: prod_quiet_def Tee_def produceFakeRecords_def)

lemma step_count_ok:
  assumes "step a s = Some s'" and "count_ok s"
  shows "count_ok s'"
  using assms
  by (cases a; cases "tee s") (auto simp: count_ok_def split: if_splits load_state.splits option.splits)

lemma exec_count_ok: "exec as s = Some s' \<Longrightarrow> count_ok s \<Longrightarrow> count_ok s'"
proof (induction as arbitrary: s)
  case Nil
  then show ?case by simp
next
  case (Cons a as)
  then show ?case
    by (auto split: option.splits dest: step_count_ok)
qed

lemma upto_max0: "[1..max 0 n] = [1..n]"
  by (cases "0 \<le> n") (simp_all add: max_def)

lemma recordOf_fields:
  "map_of (recordOf j) ''id'' = Some (IntValue j)"
  "map_of (recordOf j) ''payload'' = Some (StringValue (''record-'' @ Itoa j))"
  by (simp_all add: recordOf_def)

lemma src_Extract_Inr:
  "src_Extract src c = Inr p \<Longrightarrow> p = produceFakeRecords (sampleRecords src)"
  by (auto simp: src_Extract_def split: option.splits)

lemma emitted_complete:
  assumes "exec sched (Tee (produceFakeRecords n) v) = Some s" and "Cancel \<notin> set sched"
    and "closed (prod s)"
  shows "emitted (prod s) = map recordOf [1..n]"
proof -
  have "hist_ok s"
    using assms(1) Tee_hist_ok exec_hist_ok by blast
  moreover have "prod_quiet n s"
    using assms(1,2) Tee_prod_quiet exec_prod_quiet by blast
  ultimately show ?thesis
    using assms(3) by (simp add: hist_ok_def prod_quiet_def upto_max0)
qed

lemma TrimSpace_examples:
  "TrimSpace ''nightly-sync'' \<noteq> []" "TrimSpace ''lake-copy'' \<noteq> []" "TrimSpace '' '' = []"
  by (simp_all add: TrimSpace_def runeWidth_def spaceRunes_def)

section \<open>Properties of creation and of running\<close>

lemma connectorsFor_Inr:
  "connectorsFor s cfg = Inr (src, dst) \<Longrightarrow>
     SourceByName (registry s) (sourceType cfg) = Inr src \<and>
     DestinationByName (registry s) (destType cfg) = Inr dst"
  by (auto simp: connectorsFor_def split: sum.splits option.splits)

lemma mysql_postgres_connectors:
  assumes "registry s = NewRegistry" and "sourceType cfg = ''mysql''"
    and "destType cfg = ''postgres''"
  shows "connectorsFor s cfg =
     Inr (newSimpleSource ''mysql'' ''High-speed MySQL binlog reader'' True 8 dbFields 50,
          newSimpleDestination ''postgres'' ''COPY protocol with conflict handling'' True 8 dbFields)"
  using assms
  by (simp add: connectorsFor_def SourceByName_def
      DestinationByName_def NewRegistry_mysql_source NewRegistry_postgres_destination
      ValidateConnectorPair_def src_Info_def dst_Info_def newSimpleSource_def
      newSimpleDestination_def)

lemma dbConfig_valid: "ensureRequiredFields dbFields dbConfig = None"
  by (simp add: dbFields_def dbConfig_def lookup_def)

lemma Create_nightlySync:
  "Create nightlySync (NewService NewRegistry) =
     (None, \<lparr>registry = NewRegistry, store = [''nightly-sync'' \<mapsto> nightlySync]\<rparr>)"
  using mysql_postgres_connectors [of "NewService NewRegistry" nightlySync]
  by (simp add: Create_def validatePipelineName_def TrimSpace_examples nightlySync_def
      NewService_def src_Validate_def dst_Validate_def newSimpleSource_def
      newSimpleDestination_def dbConfig_valid)

lemma Create_inline_eq:
  assumes "name cfg \<noteq> []"
  shows "Create_inline cfg s =
     (case connectorsFor s cfg of
        Inl e \<Rightarrow> (Some e, s)
      | Inr (src, dst) \<Rightarrow>
          (case src_Validate src (sourceConfig cfg) of
             Some e \<Rightarrow> (Some e, s)
           | None \<Rightarrow>
               (case dst_Validate dst (destConfig cfg) of
                  Some e \<Rightarrow> (Some e, s)
                | None \<Rightarrow> (None, s\<lparr>store := (store s)(name cfg \<mapsto> cfg)\<rparr>))))"
  using assms
  by (simp add: Create_inline_def connectorsFor_def split: sum.splits option.splits)

lemma validatePipelineName_nonempty: "validatePipelineName nm = None \<Longrightarrow> nm \<noteq> []"
  by (auto simp: validatePipelineName_def TrimSpace_Nil split: if_splits)


text \<open>Every step lowers the measure, so a run from the start has at most \<open>3 n + 6\<close> steps.\<close>

lemma step_fuel:
  assumes "step a s = Some s'"
  shows "fuel s' < fuel s"
proof (cases a)
  case Cancel
  with assms show ?thesis by (auto simp: fuel_def split: if_splits)
next
  case ProduceSend
  with assms show ?thesis by (auto simp: fuel_def split: if_splits)
next
  case ProduceCancelled
  with assms show ?thesis by (auto simp: fuel_def split: if_splits)
next
  case ProduceEnd
  with assms show ?thesis by (auto simp: fuel_def split: if_splits)
next
  case TeeCount
  with assms show ?thesis by (cases "tee s") (auto simp: fuel_def)
next
  case TeeForward
  with assms show ?thesis by (cases "tee s") (auto simp: fuel_def split: if_splits)
next
  case TeeEnd
  with assms show ?thesis by (auto simp: fuel_def split: if_splits)
next
  case LoadValidate
  with assms show ?thesis by (cases "load s") (auto simp: fuel_def split: option.splits)
next
  case LoadCancelled
  with assms show ?thesis by (auto simp: fuel_def split: if_splits)
next
  case LoadEnd
  with assms show ?thesis by (auto simp: fuel_def split: if_splits)
next
  case Finish
  with assms show ?thesis by (cases "load s") (auto simp: fuel_def split: if_splits)
qed

lemma exec_fuel: "exec as s = Some s' \<Longrightarrow> length as + fuel s' \<le> fuel s"
proof (induction as arbitrary: s)
  case Nil
  then show ?case by simp
next
  case (Cons a as)
  then obtain s1 where s1: "step a s = Some s1" "exec as s1 = Some s'"
    by (auto split: option.splits)
  from Cons.IH [OF s1(2)] step_fuel [OF s1(1)] show ?case by simp
qed

lemma schedule_bounded:
  assumes "exec sched (Tee (produceFakeRecords n) v) = Some s"
  shows "length sched \<le> 3 * nat n + 6"
proof -
  have "fuel (Tee (produceFakeRecords n) v) = 3 * nat n + 6"
    by (simp add: fuel_def Tee_def produceFakeRecords_def)
  with exec_fuel [OF assms] show ?thesis by simp
qed

text \<open>From any state in which \<^verbatim>\<open>Run\<close> has not read the counter, the run can be brought to that read.\<close>

lemma exec_drain_open:
  assumes "tee s = TeeRange" and "load s = LoadSelect" and "finished s = None"
    and "\<not> closed (prod s)"
  shows "\<exists>s'. exec (concat (replicate (nat (limit (prod s) - loop_i (prod s)))
                     [ProduceSend, TeeCount, TeeForward])
                 @ [ProduceEnd, TeeEnd, LoadEnd, Finish]) s = Some s' \<and> finished s' \<noteq> None"
proof -
  let ?m = "nat (limit (prod s) - loop_i (prod s))"
  let ?s2 = "rounds ?m s"
  have m: "exec (concat (replicate ?m [ProduceSend, TeeCount, TeeForward])) s = Some ?s2"
    using assms by (intro exec_rounds) simp_all
  have e: "exec [ProduceEnd, TeeEnd, LoadEnd, Finish] ?s2 =
      Some (?s2\<lparr>prod := (prod ?s2)\<lparr>closed := True\<rparr>, tee := TeeClosed,
                 load := LoadReturned None, finished := Some (counter ?s2, None)\<rparr>)"
    using assms by (intro exec_ending) (simp_all add: rounds_fields)
  show ?thesis
    using m e by (simp only: exec_append option.case) simp
qed

lemma exec_drain_range:
  assumes "tee s = TeeRange" and "load s = LoadSelect" and "finished s = None"
  shows "\<exists>s'. exec (drainFrom s) s = Some s' \<and> finished s' \<noteq> None"
proof (cases "closed (prod s)")
  case True
  with assms show ?thesis by (simp add: drainFrom_def)
next
  case False
  with assms have "drainFrom s =
      concat (replicate (nat (limit (prod s) - loop_i (prod s))) [ProduceSend, TeeCount, TeeForward])
        @ [ProduceEnd, TeeEnd, LoadEnd, Finish]"
    by (simp add: drainFrom_def)
  with exec_drain_open [OF assms False] show ?thesis by simp
qed

lemma exec_drain:
  assumes "load s = LoadSelect" and "finished s = None"
  shows "\<exists>s'. exec (drainFrom s) s = Some s' \<and> finished s' \<noteq> None"
proof (cases "tee s")
  case TeeRange
  then show ?thesis using assms by (rule exec_drain_range)
next
  case (TeeFn r)
  let ?s1 = "s\<lparr>counter := counter s + 1, tee := TeeRange, loaded := loaded s @ [r]\<rparr>"
  have f: "exec [TeeCount, TeeForward] s = Some ?s1"
    using assms TeeFn by simp
  have d: "drainFrom s = [TeeCount, TeeForward] @ drainFrom ?s1"
    using TeeFn by (simp add: drainFrom_def)
  have "\<exists>s'. exec (drainFrom ?s1) ?s1 = Some s' \<and> finished s' \<noteq> None"
    using assms by (intro exec_drain_range) simp_all
  then show ?thesis
    unfolding d using f by (simp only: exec_append option.case)
next
  case (TeeSend r)
  let ?s1 = "s\<lparr>tee := TeeRange, loaded := loaded s @ [r]\<rparr>"
  have f: "exec [TeeForward] s = Some ?s1"
    using assms TeeSend by simp
  have d: "drainFrom s = [TeeForward] @ drainFrom ?s1"
    using TeeSend by (simp add: drainFrom_def)
  have "\<exists>s'. exec (drainFrom ?s1) ?s1 = Some s' \<and> finished s' \<noteq> None"
    using assms by (intro exec_drain_range) simp_all
  then show ?thesis
    unfolding d using f by (simp only: exec_append option.case)
next
  case TeeClosed
  with assms show ?thesis by (simp add: drainFrom_def)
qed

lemma exec_finishFrom:
  assumes "finished s = None"
  shows "\<exists>s'. exec (finishFrom s) s = Some s' \<and> finished s' \<noteq> None"
proof (cases "load s")
  case (LoadEntered v)
  show ?thesis
  proof (cases v)
    case None
    let ?s1 = "s\<lparr>load := LoadSelect\<rparr>"
    have f: "exec [LoadValidate] s = Some ?s1"
      using LoadEntered None by simp
    have d: "finishFrom s = [LoadValidate] @ drainFrom ?s1"
      using LoadEntered None by (simp add: finishFrom_def drainFrom_def)
    have "\<exists>s'. exec (drainFrom ?s1) ?s1 = Some s' \<and> finished s' \<noteq> None"
      using assms by (intro exec_drain) simp_all
    then show ?thesis
      unfolding d using f by (simp only: exec_append option.case)
  next
    case (Some e)
    with LoadEntered assms show ?thesis by (simp add: finishFrom_def)
  qed
next
  case LoadSelect
  then have "finishFrom s = drainFrom s" by (simp add: finishFrom_def)
  with exec_drain [OF LoadSelect assms] show ?thesis by simp
next
  case (LoadReturned e)
  with assms show ?thesis by (simp add: finishFrom_def)
qed

lemma finishFrom_no_cancel: "Cancel \<notin> set (finishFrom s)"
  by (cases "tee s")
    (auto simp: finishFrom_def drainFrom_def split: load_state.splits option.splits)

lemma dst_Load_never_stuck:
  assumes "exec sched (Tee p (dst_Validate d c)) = Some s"
  shows "\<exists>rest r. Cancel \<notin> set rest \<and> dst_Load (sched @ rest) d c p = Some r"
proof (cases "finished s")
  case None
  then obtain s' where "exec (finishFrom s) s = Some s'" "finished s' \<noteq> None"
    using exec_finishFrom by blast
  then have "\<exists>r. dst_Load (sched @ finishFrom s) d c p = Some r"
    using assms by (auto simp: dst_Load_def exec_append)
  with finishFrom_no_cancel show ?thesis by blast
next
  case (Some r)
  with assms have "dst_Load (sched @ []) d c p = Some r"
    by (simp add: dst_Load_def)
  then show ?thesis by (metis empty_iff list.set(1))
qed

lemma Run_shape:
  "(\<exists>r. \<forall>sched. Run sched t0 t1 nm s = Some (r, s)) \<or>
   (\<exists>dst c n. \<forall>sched. Run sched t0 t1 nm s =
      map_option (\<lambda>(k, e). (finish t1 k e (newResult t0 nm), s))
        (dst_Load sched dst c (produceFakeRecords n)))"
proof (cases "store s nm")
  case None
  then show ?thesis by (simp add: Run_def getConfig_def)
next
  case (Some cfg)
  note cfg = Some
  show ?thesis
  proof (cases "connectorsFor s cfg")
    case (Inl e)
    with cfg show ?thesis by (simp add: Run_def getConfig_def)
  next
    case (Inr p)
    obtain src dst where p: "p = (src, dst)" by (cases p)
    show ?thesis
    proof (cases "src_Validate src (sourceConfig cfg)")
      case (Some e)
      with cfg Inr p show ?thesis
        by (simp add: Run_def getConfig_def src_Extract_def)
    next
      case None
      have "Run sched t0 t1 nm s =
          map_option (\<lambda>(k, e). (finish t1 k e (newResult t0 nm), s))
            (dst_Load sched dst (destConfig cfg) (produceFakeRecords (sampleRecords src)))"
        for sched
        using cfg Inr p None
        by (cases "dst_Load sched dst (destConfig cfg) (produceFakeRecords (sampleRecords src))")
          (auto simp: Run_def Let_def getConfig_def src_Extract_def)
      then show ?thesis by blast
    qed
  qed
qed

lemma Run_inline_shape:
  "(\<exists>r. \<forall>sched. Run_inline sched t0 t1 nm s = Some (r, s)) \<or>
   (\<exists>dst c n. \<forall>sched. Run_inline sched t0 t1 nm s =
      map_option (\<lambda>(k, e). (finish t1 k e (newResult t0 nm), s))
        (dst_Load sched dst c (produceFakeRecords n)))"
proof (cases "store s nm")
  case None
  then show ?thesis by (simp add: Run_inline_def)
next
  case (Some cfg)
  note cfg = Some
  show ?thesis
  proof (cases "SourceByName (registry s) (sourceType cfg)")
    case (Inl e)
    with cfg show ?thesis by (simp add: Run_inline_def)
  next
    case (Inr src)
    note src = Inr
    show ?thesis
    proof (cases "DestinationByName (registry s) (destType cfg)")
      case (Inl e)
      with cfg src show ?thesis by (simp add: Run_inline_def)
    next
      case (Inr dst)
      note dst = Inr
      show ?thesis
      proof (cases "src_Validate src (sourceConfig cfg)")
        case (Some e)
        with cfg src dst show ?thesis
          by (simp add: Run_inline_def src_Extract_def)
      next
        case None
        have "Run_inline sched t0 t1 nm s =
            map_option (\<lambda>(k, e). (finish t1 k e (newResult t0 nm), s))
              (dst_Load sched dst (destConfig cfg) (produceFakeRecords (sampleRecords src)))"
          for sched
          using cfg src dst None
          by (cases "dst_Load sched dst (destConfig cfg) (produceFakeRecords (sampleRecords src))")
            (auto simp: Run_inline_def Let_def src_Extract_def finish_def newResult_def
              split: option.splits)
        then show ?thesis by blast
      qed
    qed
  qed
qed

lemma dst_Load_stuck_or_returns:
  "(\<exists>rest r. Cancel \<notin> set rest \<and> dst_Load (sched @ rest) d c p = Some r) \<or>
   (\<forall>rest. dst_Load (sched @ rest) d c p = None)"
proof (cases "exec sched (Tee p (dst_Validate d c))")
  case None
  then show ?thesis by (simp add: dst_Load_def exec_append)
next
  case (Some s)
  then show ?thesis using dst_Load_never_stuck by blast
qed

lemma shape_never_stuck:
  assumes "(\<exists>r. \<forall>sched. run sched = Some (r, s)) \<or>
     (\<exists>dst c n. \<forall>sched. run sched =
        map_option (\<lambda>(k, e). (f k e, s)) (dst_Load sched dst c (produceFakeRecords n)))"
  shows "(\<exists>rest r. Cancel \<notin> set rest \<and> run (sched @ rest) = Some (r, s)) \<or>
         (\<forall>rest. run (sched @ rest) = None)"
  using assms
proof
  assume "\<exists>r. \<forall>sched. run sched = Some (r, s)"
  then obtain r where "run (sched @ []) = Some (r, s)" by blast
  then show ?thesis by (metis empty_iff list.set(1))
next
  assume "\<exists>dst c n. \<forall>sched. run sched =
        map_option (\<lambda>(k, e). (f k e, s)) (dst_Load sched dst c (produceFakeRecords n))"
  then obtain dst c n where run: "\<And>sched. run sched =
        map_option (\<lambda>(k, e). (f k e, s)) (dst_Load sched dst c (produceFakeRecords n))"
    by blast
  from dst_Load_stuck_or_returns [of sched dst c "produceFakeRecords n"] show ?thesis
  proof
    assume "\<exists>rest r. Cancel \<notin> set rest \<and>
        dst_Load (sched @ rest) dst c (produceFakeRecords n) = Some r"
    then obtain rest r where r: "Cancel \<notin> set rest"
      "dst_Load (sched @ rest) dst c (produceFakeRecords n) = Some r"
      by blast
    then have "run (sched @ rest) = Some (f (fst r) (snd r), s)"
      by (simp add: run case_prod_beta)
    with r(1) show ?thesis by blast
  next
    assume "\<forall>rest. dst_Load (sched @ rest) dst c (produceFakeRecords n) = None"
    then show ?thesis by (simp add: run)
  qed
qed

lemma Run_never_stuck:
  "(\<exists>rest r. Cancel \<notin> set rest \<and> Run (sched @ rest) t0 t1 nm s = Some (r, s)) \<or>
   (\<forall>rest. Run (sched @ rest) t0 t1 nm s = None)"
  using Run_shape [of t0 t1 nm s] by (rule shape_never_stuck)

lemma Run_inline_never_stuck:
  "(\<exists>rest r. Cancel \<notin> set rest \<and> Run_inline (sched @ rest) t0 t1 nm s = Some (r, s)) \<or>
   (\<forall>rest. Run_inline (sched @ rest) t0 t1 nm s = None)"
  using Run_inline_shape [of t0 t1 nm s] by (rule shape_never_stuck)

lemma shape_returns:
  assumes "(\<exists>r. \<forall>sched. run sched = Some (r, s)) \<or>
     (\<exists>dst c n. \<forall>sched. run sched =
        map_option (\<lambda>(k, e). (f k e, s)) (dst_Load sched dst c (produceFakeRecords n)))"
  shows "\<exists>sched r. run sched = Some (r, s)"
  using shape_never_stuck [OF assms, of "[]"] assms dst_Load_returns
  by (metis (no_types, lifting) append_Nil map_option_eq_Some option.distinct(1))

lemma Run_returns: "\<exists>sched r. Run sched t0 t1 nm s = Some (r, s)"
  using Run_shape [of t0 t1 nm s] by (rule shape_returns)

lemma Run_inline_returns: "\<exists>sched r. Run_inline sched t0 t1 nm s = Some (r, s)"
  using Run_inline_shape [of t0 t1 nm s] by (rule shape_returns)

lemma map_filter_set:
  "set (List.map_filter f ks) = {v. \<exists>k \<in> set ks. f k = Some v}"
  by (induction ks) (auto split: option.splits)

lemma map_filter_length:
  "set ks \<subseteq> dom f \<Longrightarrow> length (List.map_filter f ks) = length ks"
  by (induction ks) (auto split: option.splits)

lemma List_within_store:
  "set (fst (List ks s)) \<subseteq> ran (store s)" "set (fst (List_inline ks s)) \<subseteq> ran (store s)"
  by (auto simp: List_def List_inline_def map_filter_set ran_def)

lemma recordOf_example: "recordOf 12 = [(''id'', IntValue 12), (''payload'', StringValue ''record-12'')]"
  by (simp add: recordOf_def Itoa_def digits.simps)

lemma Tee_count_ok: "count_ok (Tee p v)"
  by (simp add: count_ok_def Tee_def)

lemma Run_transfer:
  assumes "store s nm = Some cfg" and "connectorsFor s cfg = Inr (src, dst)"
    and "src_Extract src (sourceConfig cfg) = Inr p"
  shows "Run sched t0 t1 nm s =
     map_option (\<lambda>(k, e). (finish t1 k e (newResult t0 nm), s))
       (dst_Load sched dst (destConfig cfg) p)"
  using assms
  by (cases "dst_Load sched dst (destConfig cfg) p")
    (auto simp: Run_def Let_def getConfig_def)

lemma Run_inline_transfer:
  assumes "store s nm = Some cfg"
    and "SourceByName (registry s) (sourceType cfg) = Inr src"
    and "DestinationByName (registry s) (destType cfg) = Inr dst"
    and "src_Extract src (sourceConfig cfg) = Inr p"
  shows "Run_inline sched t0 t1 nm s =
     map_option (\<lambda>(k, e). (finish t1 k e (newResult t0 nm), s))
       (dst_Load sched dst (destConfig cfg) p)"
  using assms
  by (cases "dst_Load sched dst (destConfig cfg) p")
    (auto simp: Run_inline_def Let_def finish_def newResult_def split: option.splits)

lemma transfer_returns:
  assumes run: "\<And>sched'. run sched' =
      map_option (\<lambda>(k, e). (f k e, s)) (dst_Load sched' d c p)"
    and "exec sched (Tee p (dst_Validate d c)) = Some st"
  shows "\<exists>rest r. Cancel \<notin> set rest \<and> run (sched @ rest) = Some (r, s)"
proof -
  from dst_Load_never_stuck [OF assms(2)] obtain rest x where x: "Cancel \<notin> set rest"
    "dst_Load (sched @ rest) d c p = Some x"
    by blast
  then have "run (sched @ rest) = Some (f (fst x) (snd x), s)"
    by (simp add: run case_prod_beta)
  with x(1) show ?thesis by blast
qed



lemma cancelled_prefix_runs:
  "\<exists>st. exec [LoadValidate, ProduceSend, TeeCount, Cancel]
          (Tee (produceFakeRecords 50) None) = Some st"
  by (simp add: Tee_def produceFakeRecords_def)

section \<open>Claims about pairing and creation\<close>

text \<open>
  C2, as the code has it. \<^verbatim>\<open>ValidateConnectorPair\<close> fails exactly when the source
  descriptor's kind is not \<^verbatim>\<open>source\<close>, or the destination descriptor's kind is not
  \<^verbatim>\<open>destination\<close>, or both descriptors are named iceberg. A wrong kind gives
  ``invalid connector pairing''. The name of the destination alone decides nothing.
\<close>

theorem ValidateConnectorPair_fails_iff:
  "(ValidateConnectorPair src dst \<noteq> None \<longleftrightarrow>
      Type src \<noteq> SourceType \<or> Type dst \<noteq> DestinationType \<or>
      (Name src = ''iceberg'' \<and> Name dst = ''iceberg'')) \<and>
   (ValidateConnectorPair src dst = Some InvalidPairing \<longleftrightarrow>
      Type src \<noteq> SourceType \<or> Type dst \<noteq> DestinationType)"
  by (auto simp: ValidateConnectorPair_def)

theorem ValidateConnectorPair_fails_iff_witness:
  "ValidateConnectorPair (src_Info IcebergSource) (dst_Info icebergDestination) \<noteq> None \<and>
   ValidateConnectorPair (src_Info IcebergSource) (dst_Info icebergDestination) \<noteq> Some InvalidPairing"
  using ValidateConnectorPair_fails_iff [of "src_Info IcebergSource" "dst_Info icebergDestination"]
  by (simp add: src_Info_def dst_Info_def IcebergSource_def icebergDestination_def
      newSimpleDestination_def SourceType_def DestinationType_def)

text \<open>
  C2 as stated fails: a destination descriptor named iceberg, of kind \<^verbatim>\<open>destination\<close>,
  passes when the source is mysql.
\<close>

theorem mysql_to_iceberg_descriptor_passes:
  "Type (src_Info MySQLSource) = SourceType \<and>
   Type (dst_Info icebergDestination) = DestinationType \<and>
   Name (dst_Info icebergDestination) = ''iceberg'' \<and>
   ValidateConnectorPair (src_Info MySQLSource) (dst_Info icebergDestination) = None"
  by (simp add: ValidateConnectorPair_def src_Info_def dst_Info_def MySQLSource_def
      icebergDestination_def newSimpleDestination_def)

text \<open>
  C1, as the code has it. On a service over the registry as built, \<^verbatim>\<open>Create\<close> with
  source and destination both iceberg fails and returns the service as it was, in both
  revisions. No destination named iceberg is registered, so \<^verbatim>\<open>DestinationByName\<close>
  fails before the pair is looked at: the error is ``unknown destination connector
  iceberg'', or ``pipeline name is required'' when the name is blank.
\<close>

theorem create_iceberg_to_iceberg:
  assumes "sourceType cfg = ''iceberg''" and "destType cfg = ''iceberg''"
    and "registry s = NewRegistry"
  shows "Create cfg s =
           (Some (if TrimSpace (name cfg) = [] then NameRequired
                  else UnknownDestination ''iceberg''), s) \<and>
         Create_inline cfg s =
           (Some (if name cfg = [] then NameRequired else UnknownDestination ''iceberg''), s)"
  using assms
  by (simp add: Create_def Create_inline_def validatePipelineName_def connectorsFor_def
      SourceByName_def DestinationByName_def NewRegistry_iceberg_source
      NewRegistry_no_iceberg_destination)

theorem create_iceberg_to_iceberg_witness:
  "Create lakeCopy (NewService NewRegistry) =
     (Some (UnknownDestination ''iceberg''), NewService NewRegistry) \<and>
   Create_inline lakeCopy (NewService NewRegistry) =
     (Some (UnknownDestination ''iceberg''), NewService NewRegistry)"
  using create_iceberg_to_iceberg [of lakeCopy "NewService NewRegistry"]
  by (simp add: lakeCopy_def NewService_def TrimSpace_examples)

text \<open>
  C1 as stated fails: the error is not a pairing error, and a name that was stored before
  the failed call is still stored after it.
\<close>

theorem create_iceberg_to_iceberg_not_pairing_error:
  "fst (Create lakeCopy (NewService NewRegistry)) = Some (UnknownDestination ''iceberg'') \<and>
   fst (Create_inline lakeCopy (NewService NewRegistry)) = Some (UnknownDestination ''iceberg'') \<and>
   UnknownDestination ''iceberg'' \<noteq> InvalidPairing \<and>
   UnknownDestination ''iceberg'' \<noteq> IcebergDestination \<and>
   errorString (UnknownDestination ''iceberg'') = ''unknown destination connector iceberg'' \<and>
   store (snd (Create (lakeCopy\<lparr>name := ''nightly-sync''\<rparr>)
                 \<lparr>registry = NewRegistry, store = [''nightly-sync'' \<mapsto> nightlySync]\<rparr>))
     ''nightly-sync'' = Some nightlySync"
  by (simp add: Create_def Create_inline_def validatePipelineName_def connectorsFor_def
      SourceByName_def DestinationByName_def NewRegistry_iceberg_source
      NewRegistry_no_iceberg_destination lakeCopy_def NewService_def TrimSpace_examples)

text \<open>
  C7. With a name that passes and a source and destination that resolve to a valid pair,
  a source or destination configuration in which a required key is absent or empty makes
  \<^verbatim>\<open>Create\<close> fail with ``missing required config'' for such a key, in both revisions,
  and the service is returned as it was: the store is neither extended nor overwritten,
  a listing after the call is the listing before it, and a definition that was not
  stored before is not in it.
\<close>

theorem Create_missing_field:
  assumes "validatePipelineName (name cfg) = None"
    and "connectorsFor s cfg = Inr (src, dst)"
    and "(\<exists>k \<in> set (src_required src). lookup (sourceConfig cfg) k = []) \<or>
         (\<exists>k \<in> set (dst_required dst). lookup (destConfig cfg) k = [])"
  shows "\<exists>k. (k \<in> set (src_required src) \<and> lookup (sourceConfig cfg) k = [] \<or>
              k \<in> set (dst_required dst) \<and> lookup (destConfig cfg) k = []) \<and>
             Create cfg s = (Some (MissingConfig k), s) \<and>
             Create_inline cfg s = (Some (MissingConfig k), s) \<and>
             List ks (snd (Create cfg s)) = List ks s \<and>
             List_inline ks (snd (Create_inline cfg s)) = List_inline ks s \<and>
             (cfg \<notin> ran (store s) \<longrightarrow>
                cfg \<notin> set (fst (List ks (snd (Create cfg s)))) \<and>
                cfg \<notin> set (fst (List_inline ks (snd (Create_inline cfg s)))))"
proof -
  have "\<exists>k. (k \<in> set (src_required src) \<and> lookup (sourceConfig cfg) k = [] \<or>
              k \<in> set (dst_required dst) \<and> lookup (destConfig cfg) k = []) \<and>
             Create cfg s = (Some (MissingConfig k), s) \<and>
             Create_inline cfg s = (Some (MissingConfig k), s)"
  proof (cases "src_Validate src (sourceConfig cfg)")
    case (Some e)
    then obtain k where k: "k \<in> set (src_required src)" "e = MissingConfig k"
      "lookup (sourceConfig cfg) k = []"
      using ensureRequiredFields_Some by (fastforce simp: src_Validate_def)
    have "Create cfg s = (Some (MissingConfig k), s)"
      using assms(1,2) Some k(2) by (simp add: Create_def)
    moreover have "Create_inline cfg s = (Some (MissingConfig k), s)"
      using assms(1,2) Some k(2) validatePipelineName_nonempty [OF assms(1)]
      by (simp add: Create_inline_eq)
    ultimately show ?thesis using k by auto
  next
    case None
    then have "\<forall>k \<in> set (src_required src). lookup (sourceConfig cfg) k \<noteq> []"
      by (simp add: src_Validate_def ensureRequiredFields_None_iff)
    with assms(3) have "dst_Validate dst (destConfig cfg) \<noteq> None"
      by (auto simp: dst_Validate_def ensureRequiredFields_None_iff)
    then obtain e where e: "dst_Validate dst (destConfig cfg) = Some e" by auto
    then obtain k where k: "k \<in> set (dst_required dst)" "e = MissingConfig k"
      "lookup (destConfig cfg) k = []"
      using ensureRequiredFields_Some by (fastforce simp: dst_Validate_def)
    have "Create cfg s = (Some (MissingConfig k), s)"
      using assms(1,2) None e k(2) by (simp add: Create_def)
    moreover have "Create_inline cfg s = (Some (MissingConfig k), s)"
      using assms(1,2) None e k(2) validatePipelineName_nonempty [OF assms(1)]
      by (simp add: Create_inline_eq)
    ultimately show ?thesis using k by auto
  qed
  then obtain k where k:
    "k \<in> set (src_required src) \<and> lookup (sourceConfig cfg) k = [] \<or>
     k \<in> set (dst_required dst) \<and> lookup (destConfig cfg) k = []"
    "Create cfg s = (Some (MissingConfig k), s)"
    "Create_inline cfg s = (Some (MissingConfig k), s)"
    by blast
  have "cfg \<notin> ran (store s) \<longrightarrow>
      cfg \<notin> set (fst (List ks s)) \<and> cfg \<notin> set (fst (List_inline ks s))"
    using List_within_store [of ks s] by blast
  with k show ?thesis by auto
qed

theorem Create_missing_field_witness:
  "Create (nightlySync\<lparr>sourceConfig := dbConfig(''password'' := None)\<rparr>) (NewService NewRegistry) =
     (Some (MissingConfig ''password''), NewService NewRegistry) \<and>
   Create_inline (nightlySync\<lparr>sourceConfig := dbConfig(''password'' := None)\<rparr>)
       (NewService NewRegistry) =
     (Some (MissingConfig ''password''), NewService NewRegistry)"
proof -
  let ?cfg = "nightlySync\<lparr>sourceConfig := dbConfig(''password'' := None)\<rparr>"
  let ?src = "newSimpleSource ''mysql'' ''High-speed MySQL binlog reader'' True 8 dbFields 50"
  let ?dst = "newSimpleDestination ''postgres'' ''COPY protocol with conflict handling'' True 8 dbFields"
  have n: "validatePipelineName (name ?cfg) = None"
    by (simp add: validatePipelineName_def nightlySync_def TrimSpace_examples)
  have m: "(\<exists>k \<in> set (src_required ?src). lookup (sourceConfig ?cfg) k = []) \<or>
         (\<exists>k \<in> set (dst_required ?dst). lookup (destConfig ?cfg) k = [])"
    by (simp add: newSimpleSource_def dbFields_def lookup_def dbConfig_def)
  have c: "connectorsFor (NewService NewRegistry) ?cfg = Inr (?src, ?dst)"
    by (rule mysql_postgres_connectors) (simp_all add: NewService_def nightlySync_def)
  from Create_missing_field [OF n c m, of "[]"]
  obtain k where k:
    "k \<in> set (src_required ?src) \<and> lookup (sourceConfig ?cfg) k = [] \<or>
     k \<in> set (dst_required ?dst) \<and> lookup (destConfig ?cfg) k = []"
    "Create ?cfg (NewService NewRegistry) = (Some (MissingConfig k), NewService NewRegistry)"
    "Create_inline ?cfg (NewService NewRegistry) = (Some (MissingConfig k), NewService NewRegistry)"
    by blast
  from k(1) have "k = ''password''"
    by (auto simp: newSimpleSource_def newSimpleDestination_def dbFields_def lookup_def
        dbConfig_def nightlySync_def split: if_splits)
  with k(2,3) show ?thesis by simp
qed

text \<open>
  C8. The revision with helpers rejects every name that is empty after trimming white
  space. The inline revision compares the name with the empty string only.
\<close>

lemma Create_rejects_blank_name:
  "TrimSpace (name cfg) = [] \<Longrightarrow> Create cfg s = (Some NameRequired, s)"
  by (simp add: Create_def validatePipelineName_def)

lemma Create_inline_rejects_empty_name:
  "name cfg = [] \<Longrightarrow> Create_inline cfg s = (Some NameRequired, s)"
  by (simp add: Create_inline_def)

text \<open>
  C8 at the name of one space, with the configuration of the nightly pipeline: the revision
  with helpers rejects it, the inline revision stores it.
\<close>

theorem Create_inline_stores_blank_name:
  "TrimSpace '' '' = [] \<and>
   Create (nightlySync\<lparr>name := '' ''\<rparr>) (NewService NewRegistry) =
     (Some NameRequired, NewService NewRegistry) \<and>
   Create_inline (nightlySync\<lparr>name := '' ''\<rparr>) (NewService NewRegistry) =
     (None, \<lparr>registry = NewRegistry, store = ['' '' \<mapsto> nightlySync\<lparr>name := '' ''\<rparr>]\<rparr>)"
  by (simp add: Create_def validatePipelineName_def TrimSpace_examples Create_inline_def
      nightlySync_def NewService_def SourceByName_def DestinationByName_def
      NewRegistry_mysql_source NewRegistry_postgres_destination ValidateConnectorPair_def
      src_Info_def dst_Info_def newSimpleSource_def newSimpleDestination_def
      src_Validate_def dst_Validate_def dbConfig_valid)

section \<open>Claims about listing\<close>

text \<open>
  C9. For a walk \<open>ks\<close> that meets every key of the store once, \<^verbatim>\<open>List\<close> of the
  revision with helpers returns the stored definitions, one per key, in ascending order
  of their names, and the service as it was.
\<close>

lemma List_sorted:
  assumes "distinct ks" and "set ks = dom (store s)"
  shows "sorted (map name (fst (List ks s))) \<and>
         set (fst (List ks s)) = ran (store s) \<and>
         length (fst (List ks s)) = card (dom (store s)) \<and>
         snd (List ks s) = s"
proof -
  have "set (List.map_filter (store s) ks) = ran (store s)"
    using assms(2) by (auto simp: map_filter_set ran_def)
  moreover have "length (List.map_filter (store s) ks) = card (dom (store s))"
    using assms map_filter_length [of ks "store s"] distinct_card [of ks] by simp
  ultimately show ?thesis
    by (simp add: List_def)
qed

text \<open>
  C9 at a store with the pipelines a and b, walked as b, a: the inline revision returns
  them in that order, which is not ascending; the revision with helpers returns a, b.
\<close>

theorem List_inline_unsorted:
  "fst (List_inline [''b'', ''a'']
         \<lparr>registry = NewRegistry,
          store = [''a'' \<mapsto> nightlySync\<lparr>name := ''a''\<rparr>, ''b'' \<mapsto> nightlySync\<lparr>name := ''b''\<rparr>]\<rparr>) =
     [nightlySync\<lparr>name := ''b''\<rparr>, nightlySync\<lparr>name := ''a''\<rparr>] \<and>
   \<not> sorted [''b'', ''a''] \<and>
   fst (List [''b'', ''a'']
         \<lparr>registry = NewRegistry,
          store = [''a'' \<mapsto> nightlySync\<lparr>name := ''a''\<rparr>, ''b'' \<mapsto> nightlySync\<lparr>name := ''b''\<rparr>]\<rparr>) =
     [nightlySync\<lparr>name := ''a''\<rparr>, nightlySync\<lparr>name := ''b''\<rparr>]"
  by (simp add: List_inline_def List_def nightlySync_def)

section \<open>Claims about running\<close>

text \<open>
  C5. \<^verbatim>\<open>Run\<close> has no error result: its value is a \<^verbatim>\<open>Result\<close>, and the service is
  returned as it was. When the name is not in the store, when the connectors do not
  resolve, and when extraction fails, \<^verbatim>\<open>Run\<close> returns at once, under every schedule;
  for a name not in the store the result has no records, the error ``pipeline not found''
  and the second clock reading as its finishing time. Otherwise the transfer runs: every
  run of the machine, cancelled or not and however far it has come, has at most
  \<open>3 n + 6\<close> steps and can be continued, without a further action of the caller, to
  one under which \<^verbatim>\<open>Run\<close> returns. So no run goes on for ever and none gets stuck
  before \<^verbatim>\<open>Run\<close> has returned. Both revisions.
\<close>

theorem Run_total_and_not_found:
  "(store s nm = None \<longrightarrow>
      (\<forall>sched.
         Run sched t0 t1 nm s =
           Some (\<lparr>PipelineName = nm, StartedAt = t0, FinishedAt = t1, Records = 0,
                   Error = ''pipeline not found''\<rparr>, s) \<and>
         Run_inline sched t0 t1 nm s =
           Some (\<lparr>PipelineName = nm, StartedAt = t0, FinishedAt = t1, Records = 0,
                   Error = ''pipeline not found''\<rparr>, s))) \<and>
   (\<forall>cfg e. store s nm = Some cfg \<and> connectorsFor s cfg = Inl e \<longrightarrow>
      (\<forall>sched. Run sched t0 t1 nm s =
         Some (\<lparr>PipelineName = nm, StartedAt = t0, FinishedAt = t1, Records = 0,
                 Error = errorString e\<rparr>, s))) \<and>
   (\<forall>cfg src dst e. store s nm = Some cfg \<and> connectorsFor s cfg = Inr (src, dst) \<and>
        src_Extract src (sourceConfig cfg) = Inl e \<longrightarrow>
      (\<forall>sched. Run sched t0 t1 nm s =
         Some (\<lparr>PipelineName = nm, StartedAt = t0, FinishedAt = t1, Records = 0,
                 Error = errorString e\<rparr>, s))) \<and>
   (\<forall>cfg src dst p sched st. store s nm = Some cfg \<and> connectorsFor s cfg = Inr (src, dst) \<and>
        src_Extract src (sourceConfig cfg) = Inr p \<and>
        exec sched (Tee p (dst_Validate dst (destConfig cfg))) = Some st \<longrightarrow>
      length sched \<le> 3 * nat (sampleRecords src) + 6 \<and>
      (\<exists>rest r. Cancel \<notin> set rest \<and> Run (sched @ rest) t0 t1 nm s = Some (r, s))) \<and>
   (\<forall>cfg e. store s nm = Some cfg \<and>
        (SourceByName (registry s) (sourceType cfg) = Inl e \<or>
         (\<exists>src. SourceByName (registry s) (sourceType cfg) = Inr src \<and>
            (DestinationByName (registry s) (destType cfg) = Inl e \<or>
             (\<exists>dst. DestinationByName (registry s) (destType cfg) = Inr dst \<and>
                src_Extract src (sourceConfig cfg) = Inl e)))) \<longrightarrow>
      (\<forall>sched. Run_inline sched t0 t1 nm s =
         Some (\<lparr>PipelineName = nm, StartedAt = t0, FinishedAt = t1, Records = 0,
                 Error = errorString e\<rparr>, s))) \<and>
   (\<forall>cfg src dst p sched st. store s nm = Some cfg \<and>
        SourceByName (registry s) (sourceType cfg) = Inr src \<and>
        DestinationByName (registry s) (destType cfg) = Inr dst \<and>
        src_Extract src (sourceConfig cfg) = Inr p \<and>
        exec sched (Tee p (dst_Validate dst (destConfig cfg))) = Some st \<longrightarrow>
      length sched \<le> 3 * nat (sampleRecords src) + 6 \<and>
      (\<exists>rest r. Cancel \<notin> set rest \<and> Run_inline (sched @ rest) t0 t1 nm s = Some (r, s)))"
proof -
  have a: "store s nm = None \<longrightarrow>
      (\<forall>sched.
         Run sched t0 t1 nm s =
           Some (\<lparr>PipelineName = nm, StartedAt = t0, FinishedAt = t1, Records = 0,
                   Error = ''pipeline not found''\<rparr>, s) \<and>
         Run_inline sched t0 t1 nm s =
           Some (\<lparr>PipelineName = nm, StartedAt = t0, FinishedAt = t1, Records = 0,
                   Error = ''pipeline not found''\<rparr>, s))"
    by (simp add: Run_def Run_inline_def getConfig_def newResult_def finish_def)
  have b: "\<forall>cfg e. store s nm = Some cfg \<and> connectorsFor s cfg = Inl e \<longrightarrow>
      (\<forall>sched. Run sched t0 t1 nm s =
         Some (\<lparr>PipelineName = nm, StartedAt = t0, FinishedAt = t1, Records = 0,
                 Error = errorString e\<rparr>, s))"
    by (simp add: Run_def getConfig_def newResult_def finish_def)
  have c: "\<forall>cfg src dst e. store s nm = Some cfg \<and> connectorsFor s cfg = Inr (src, dst) \<and>
        src_Extract src (sourceConfig cfg) = Inl e \<longrightarrow>
      (\<forall>sched. Run sched t0 t1 nm s =
         Some (\<lparr>PipelineName = nm, StartedAt = t0, FinishedAt = t1, Records = 0,
                 Error = errorString e\<rparr>, s))"
    by (simp add: Run_def getConfig_def newResult_def finish_def)
  have d: "length sched \<le> 3 * nat (sampleRecords src) + 6 \<and>
      (\<exists>rest r. Cancel \<notin> set rest \<and> Run (sched @ rest) t0 t1 nm s = Some (r, s))"
    if "store s nm = Some cfg" "connectorsFor s cfg = Inr (src, dst)"
      "src_Extract src (sourceConfig cfg) = Inr p"
      "exec sched (Tee p (dst_Validate dst (destConfig cfg))) = Some st"
    for cfg src dst p sched st
  proof -
    have "length sched \<le> 3 * nat (sampleRecords src) + 6"
      using that(4) unfolding src_Extract_Inr [OF that(3)] by (rule schedule_bounded)
    moreover have "\<exists>rest r. Cancel \<notin> set rest \<and> Run (sched @ rest) t0 t1 nm s = Some (r, s)"
      using Run_transfer [OF that(1-3)] that(4) by (rule transfer_returns)
    ultimately show ?thesis by blast
  qed
  have e: "\<forall>cfg e. store s nm = Some cfg \<and>
        (SourceByName (registry s) (sourceType cfg) = Inl e \<or>
         (\<exists>src. SourceByName (registry s) (sourceType cfg) = Inr src \<and>
            (DestinationByName (registry s) (destType cfg) = Inl e \<or>
             (\<exists>dst. DestinationByName (registry s) (destType cfg) = Inr dst \<and>
                src_Extract src (sourceConfig cfg) = Inl e)))) \<longrightarrow>
      (\<forall>sched. Run_inline sched t0 t1 nm s =
         Some (\<lparr>PipelineName = nm, StartedAt = t0, FinishedAt = t1, Records = 0,
                 Error = errorString e\<rparr>, s))"
    by (auto simp: Run_inline_def)
  have f: "length sched \<le> 3 * nat (sampleRecords src) + 6 \<and>
      (\<exists>rest r. Cancel \<notin> set rest \<and> Run_inline (sched @ rest) t0 t1 nm s = Some (r, s))"
    if "store s nm = Some cfg" "SourceByName (registry s) (sourceType cfg) = Inr src"
      "DestinationByName (registry s) (destType cfg) = Inr dst"
      "src_Extract src (sourceConfig cfg) = Inr p"
      "exec sched (Tee p (dst_Validate dst (destConfig cfg))) = Some st"
    for cfg src dst p sched st
  proof -
    have "length sched \<le> 3 * nat (sampleRecords src) + 6"
      using that(5) unfolding src_Extract_Inr [OF that(4)] by (rule schedule_bounded)
    moreover have "\<exists>rest r. Cancel \<notin> set rest \<and>
        Run_inline (sched @ rest) t0 t1 nm s = Some (r, s)"
      using Run_inline_transfer [OF that(1-4)] that(5) by (rule transfer_returns)
    ultimately show ?thesis by blast
  qed
  have d': "\<forall>cfg src dst p sched st. store s nm = Some cfg \<and> connectorsFor s cfg = Inr (src, dst) \<and>
        src_Extract src (sourceConfig cfg) = Inr p \<and>
        exec sched (Tee p (dst_Validate dst (destConfig cfg))) = Some st \<longrightarrow>
      length sched \<le> 3 * nat (sampleRecords src) + 6 \<and>
      (\<exists>rest r. Cancel \<notin> set rest \<and> Run (sched @ rest) t0 t1 nm s = Some (r, s))"
    using d by blast
  have f': "\<forall>cfg src dst p sched st. store s nm = Some cfg \<and>
        SourceByName (registry s) (sourceType cfg) = Inr src \<and>
        DestinationByName (registry s) (destType cfg) = Inr dst \<and>
        src_Extract src (sourceConfig cfg) = Inr p \<and>
        exec sched (Tee p (dst_Validate dst (destConfig cfg))) = Some st \<longrightarrow>
      length sched \<le> 3 * nat (sampleRecords src) + 6 \<and>
      (\<exists>rest r. Cancel \<notin> set rest \<and> Run_inline (sched @ rest) t0 t1 nm s = Some (r, s))"
    using f by blast
  show ?thesis
    by (intro conjI) (rule a b c d' e f')+
qed

theorem Run_total_and_not_found_witness:
  "Run [] 7 9 ''never-created'' (NewService NewRegistry) =
     Some (\<lparr>PipelineName = ''never-created'', StartedAt = 7, FinishedAt = 9, Records = 0,
             Error = ''pipeline not found''\<rparr>, NewService NewRegistry) \<and>
   Run_inline [] 7 9 ''never-created'' (NewService NewRegistry) =
     Some (\<lparr>PipelineName = ''never-created'', StartedAt = 7, FinishedAt = 9, Records = 0,
             Error = ''pipeline not found''\<rparr>, NewService NewRegistry) \<and>
   (\<exists>rest r. Cancel \<notin> set rest \<and>
      Run ([LoadValidate, ProduceSend, TeeCount, Cancel] @ rest) 7 9 ''nightly-sync''
          \<lparr>registry = NewRegistry, store = [''nightly-sync'' \<mapsto> nightlySync]\<rparr> =
        Some (r, \<lparr>registry = NewRegistry, store = [''nightly-sync'' \<mapsto> nightlySync]\<rparr>)) \<and>
   (\<exists>rest r. Cancel \<notin> set rest \<and>
      Run_inline ([LoadValidate, ProduceSend, TeeCount, Cancel] @ rest) 7 9 ''nightly-sync''
          \<lparr>registry = NewRegistry, store = [''nightly-sync'' \<mapsto> nightlySync]\<rparr> =
        Some (r, \<lparr>registry = NewRegistry, store = [''nightly-sync'' \<mapsto> nightlySync]\<rparr>))"
proof -
  let ?s = "\<lparr>registry = NewRegistry, store = [''nightly-sync'' \<mapsto> nightlySync]\<rparr>"
  let ?src = "newSimpleSource ''mysql'' ''High-speed MySQL binlog reader'' True 8 dbFields 50"
  let ?dst = "newSimpleDestination ''postgres'' ''COPY protocol with conflict handling'' True 8 dbFields"
  let ?sched = "[LoadValidate, ProduceSend, TeeCount, Cancel]"
  have 1: "store ?s ''nightly-sync'' = Some nightlySync" by simp
  have 2: "connectorsFor ?s nightlySync = Inr (?src, ?dst)"
    by (rule mysql_postgres_connectors) (simp_all add: nightlySync_def)
  have 3: "src_Extract ?src (sourceConfig nightlySync) = Inr (produceFakeRecords 50)"
    by (simp add: src_Extract_def src_Validate_def newSimpleSource_def nightlySync_def
        dbConfig_valid)
  have 4: "dst_Validate ?dst (destConfig nightlySync) = None"
    by (simp add: dst_Validate_def newSimpleDestination_def nightlySync_def dbConfig_valid)
  obtain st where 5:
    "exec ?sched (Tee (produceFakeRecords 50) (dst_Validate ?dst (destConfig nightlySync))) = Some st"
    unfolding 4 using cancelled_prefix_runs by blast
  have nf: "store (NewService NewRegistry) ''never-created'' = None"
    by (simp add: NewService_def)
  note t1 = Run_total_and_not_found [of "NewService NewRegistry" "''never-created''" 7 9,
    THEN conjunct1, rule_format, OF nf, of "[]"]
  note t2 = Run_total_and_not_found [of ?s "''nightly-sync''" 7 9]
  note t2a = t2 [THEN conjunct2, THEN conjunct2, THEN conjunct2, THEN conjunct1, rule_format,
    of nightlySync ?src ?dst "produceFakeRecords 50" ?sched st]
  note t2b = t2 [THEN conjunct2, THEN conjunct2, THEN conjunct2, THEN conjunct2, THEN conjunct2,
    rule_format, of nightlySync ?src ?dst "produceFakeRecords 50" ?sched st]
  have a: "Run [] 7 9 ''never-created'' (NewService NewRegistry) =
     Some (\<lparr>PipelineName = ''never-created'', StartedAt = 7, FinishedAt = 9, Records = 0,
             Error = ''pipeline not found''\<rparr>, NewService NewRegistry) \<and>
   Run_inline [] 7 9 ''never-created'' (NewService NewRegistry) =
     Some (\<lparr>PipelineName = ''never-created'', StartedAt = 7, FinishedAt = 9, Records = 0,
             Error = ''pipeline not found''\<rparr>, NewService NewRegistry)"
    by (rule t1)
  have b: "\<exists>rest r. Cancel \<notin> set rest \<and>
      Run (?sched @ rest) 7 9 ''nightly-sync'' ?s = Some (r, ?s)"
    using t2a 1 2 3 5 by blast
  have c: "\<exists>rest r. Cancel \<notin> set rest \<and>
      Run_inline (?sched @ rest) 7 9 ''nightly-sync'' ?s = Some (r, ?s)"
    using t2b 1 connectorsFor_Inr [OF 2] 3 5 by blast
  from a b c show ?thesis by blast
qed

text \<open>
  C6. In the revision with helpers, when the stored definition's source and destination
  resolve and \<^verbatim>\<open>ValidateConnectorPair\<close> rejects their descriptors, \<^verbatim>\<open>Run\<close> returns
  that error with no records. The result is the same under every schedule, the empty one
  included: no step of extraction, tee or load is taken. (In the registry that
  \<^verbatim>\<open>NewRegistry\<close> builds every pair that resolves is valid, \<open>NewRegistry_pairs_valid\<close>;
  the check guards a registry that holds more.) The inline revision resolves the two
  connectors and goes on to extract and load.
\<close>

lemma Run_invalid_pair:
  assumes "store s nm = Some cfg"
    and "SourceByName (registry s) (sourceType cfg) = Inr src"
    and "DestinationByName (registry s) (destType cfg) = Inr dst"
    and "ValidateConnectorPair (src_Info src) (dst_Info dst) = Some e"
  shows "Run sched t0 t1 nm s =
           Some (\<lparr>PipelineName = nm, StartedAt = t0, FinishedAt = t1, Records = 0,
                   Error = errorString e\<rparr>, s) \<and>
         (e = InvalidPairing \<or> e = IcebergDestination)"
proof -
  have "Run sched t0 t1 nm s =
           Some (\<lparr>PipelineName = nm, StartedAt = t0, FinishedAt = t1, Records = 0,
                   Error = errorString e\<rparr>, s)"
    using assms
    by (simp add: Run_def getConfig_def connectorsFor_def newResult_def finish_def)
  moreover have "e = InvalidPairing \<or> e = IcebergDestination"
    using assms(4) by (auto simp: ValidateConnectorPair_def split: if_splits)
  ultimately show ?thesis by blast
qed



text \<open>
  C4. For a stored pipeline whose connectors resolve to a valid pair and whose two
  configurations are valid, every run that is never cancelled and returns gives the
  source's sample size as the record count and no error, and leaves the service as it was;
  the lockstep schedule is such a run. A mysql source of the registry as built has
  sample size 50. Both revisions.
\<close>

theorem Run_uncancelled_counts_all:
  assumes "store s nm = Some cfg"
    and "connectorsFor s cfg = Inr (src, dst)"
    and "src_Validate src (sourceConfig cfg) = None"
    and "dst_Validate dst (destConfig cfg) = None"
    and "0 \<le> sampleRecords src"
  shows "(\<forall>sched r s'. Cancel \<notin> set sched \<and>
            (Run sched t0 t1 nm s = Some (r, s') \<or> Run_inline sched t0 t1 nm s = Some (r, s')) \<longrightarrow>
            r = \<lparr>PipelineName = nm, StartedAt = t0, FinishedAt = t1,
                  Records = sampleRecords src, Error = []\<rparr> \<and> s' = s) \<and>
         Run (lockstep (nat (sampleRecords src))) t0 t1 nm s =
           Some (\<lparr>PipelineName = nm, StartedAt = t0, FinishedAt = t1,
                   Records = sampleRecords src, Error = []\<rparr>, s) \<and>
         Run_inline (lockstep (nat (sampleRecords src))) t0 t1 nm s =
           Some (\<lparr>PipelineName = nm, StartedAt = t0, FinishedAt = t1,
                   Records = sampleRecords src, Error = []\<rparr>, s) \<and>
         (registry s = NewRegistry \<and> sourceType cfg = ''mysql'' \<longrightarrow> sampleRecords src = 50)"
proof -
  let ?n = "sampleRecords src"
  let ?res = "\<lparr>PipelineName = nm, StartedAt = t0, FinishedAt = t1, Records = ?n, Error = []\<rparr>"
  note res = connectorsFor_Inr [OF assms(2)]
  have ex: "src_Extract src (sourceConfig cfg) = Inr (produceFakeRecords ?n)"
    using assms(3) by (simp add: src_Extract_def)
  have run: "Run sched t0 t1 nm s =
      map_option (\<lambda>(n, e). (finish t1 n e (newResult t0 nm), s))
        (dst_Load sched dst (destConfig cfg) (produceFakeRecords ?n))" for sched
    using assms(1,2) ex
    by (cases "dst_Load sched dst (destConfig cfg) (produceFakeRecords ?n)")
      (auto simp: Run_def Let_def getConfig_def split: option.splits)
  have run': "Run_inline sched t0 t1 nm s =
      map_option (\<lambda>(n, e). (finish t1 n e (newResult t0 nm), s))
        (dst_Load sched dst (destConfig cfg) (produceFakeRecords ?n))" for sched
    using assms(1) res ex
    by (cases "dst_Load sched dst (destConfig cfg) (produceFakeRecords ?n)")
      (auto simp: Run_inline_def Let_def finish_def newResult_def split: option.splits)
  have fin: "finish t1 ?n None (newResult t0 nm) = ?res"
    by (simp add: finish_def newResult_def)
  have a: "r = ?res \<and> s' = s"
    if "Cancel \<notin> set sched"
      and "Run sched t0 t1 nm s = Some (r, s') \<or> Run_inline sched t0 t1 nm s = Some (r, s')"
    for sched r s'
  proof -
    from that(2) obtain x where x:
      "dst_Load sched dst (destConfig cfg) (produceFakeRecords ?n) = Some x"
      "(r, s') = (case x of (n, e) \<Rightarrow> (finish t1 n e (newResult t0 nm), s))"
      unfolding run run' by auto
    from dst_Load_uncancelled [OF assms(4) that(1) x(1)] assms(5) have "x = (?n, None)"
      by simp
    with x(2) fin show ?thesis by simp
  qed
  have l: "dst_Load (lockstep (nat ?n)) dst (destConfig cfg) (produceFakeRecords ?n) =
      Some (?n, None)"
    using dst_Load_lockstep [OF assms(4), of ?n] assms(5) by simp
  have b: "Run (lockstep (nat ?n)) t0 t1 nm s = Some (?res, s)"
    unfolding run l using fin by simp
  have c: "Run_inline (lockstep (nat ?n)) t0 t1 nm s = Some (?res, s)"
    unfolding run' l using fin by simp
  have d: "registry s = NewRegistry \<and> sourceType cfg = ''mysql'' \<longrightarrow> ?n = 50"
    using res by (auto simp: SourceByName_def NewRegistry_mysql_source newSimpleSource_def)
  from a b c d show ?thesis by blast
qed

theorem Run_uncancelled_counts_all_witness:
  "Create nightlySync (NewService NewRegistry) =
     (None, \<lparr>registry = NewRegistry, store = [''nightly-sync'' \<mapsto> nightlySync]\<rparr>) \<and>
   Run (lockstep 50) 7 9 ''nightly-sync''
       \<lparr>registry = NewRegistry, store = [''nightly-sync'' \<mapsto> nightlySync]\<rparr> =
     Some (\<lparr>PipelineName = ''nightly-sync'', StartedAt = 7, FinishedAt = 9, Records = 50,
             Error = []\<rparr>,
           \<lparr>registry = NewRegistry, store = [''nightly-sync'' \<mapsto> nightlySync]\<rparr>) \<and>
   Run_inline (lockstep 50) 7 9 ''nightly-sync''
       \<lparr>registry = NewRegistry, store = [''nightly-sync'' \<mapsto> nightlySync]\<rparr> =
     Some (\<lparr>PipelineName = ''nightly-sync'', StartedAt = 7, FinishedAt = 9, Records = 50,
             Error = []\<rparr>,
           \<lparr>registry = NewRegistry, store = [''nightly-sync'' \<mapsto> nightlySync]\<rparr>)"
proof -
  let ?s = "\<lparr>registry = NewRegistry, store = [''nightly-sync'' \<mapsto> nightlySync]\<rparr>"
  let ?src = "newSimpleSource ''mysql'' ''High-speed MySQL binlog reader'' True 8 dbFields 50"
  let ?dst = "newSimpleDestination ''postgres'' ''COPY protocol with conflict handling'' True 8 dbFields"
  have 1: "store ?s ''nightly-sync'' = Some nightlySync" by simp
  have 2: "connectorsFor ?s nightlySync = Inr (?src, ?dst)"
    by (rule mysql_postgres_connectors) (simp_all add: nightlySync_def)
  have 3: "src_Validate ?src (sourceConfig nightlySync) = None"
    by (simp add: src_Validate_def newSimpleSource_def nightlySync_def dbConfig_valid)
  have 4: "dst_Validate ?dst (destConfig nightlySync) = None"
    by (simp add: dst_Validate_def newSimpleDestination_def nightlySync_def dbConfig_valid)
  have 5: "0 \<le> sampleRecords ?src" by (simp add: newSimpleSource_def)
  have 6: "sampleRecords ?src = 50" by (simp add: newSimpleSource_def)
  from Run_uncancelled_counts_all [OF 1 2 3 4 5, of 7 9] Create_nightlySync show ?thesis
    unfolding 6 by simp
qed

text \<open>
  C10. When extraction has succeeded, the context is never cancelled and the producer has
  closed its channel, the records it handed over are those with the identifiers 1 to the
  sample size, in this order, each with the payload ``record-'' followed by its
  identifier in decimal; any two such runs hand over the same sequence.
\<close>

theorem extraction_yields_records:
  assumes "src_Extract src c = Inr p"
    and "exec sched (Tee p v) = Some s" and "Cancel \<notin> set sched" and "closed (prod s)"
  shows "emitted (prod s) = map recordOf [1..sampleRecords src] \<and>
         length (emitted (prod s)) = nat (sampleRecords src) \<and>
         (\<forall>r \<in> set (emitted (prod s)). \<exists>j. 1 \<le> j \<and> j \<le> sampleRecords src \<and>
             map_of r ''id'' = Some (IntValue j) \<and>
             map_of r ''payload'' = Some (StringValue (''record-'' @ Itoa j))) \<and>
         (\<forall>sched' v' s'. exec sched' (Tee p v') = Some s' \<and> Cancel \<notin> set sched' \<and>
             closed (prod s') \<longrightarrow> emitted (prod s') = emitted (prod s))"
proof -
  from assms(1) have p: "p = produceFakeRecords (sampleRecords src)"
    by (rule src_Extract_Inr)
  have e: "emitted (prod s) = map recordOf [1..sampleRecords src]"
    using assms(2-4) unfolding p by (rule emitted_complete)
  have "\<forall>sched' v' s'. exec sched' (Tee p v') = Some s' \<and> Cancel \<notin> set sched' \<and>
             closed (prod s') \<longrightarrow> emitted (prod s') = emitted (prod s)"
    unfolding p e using emitted_complete by blast
  with e show ?thesis
    by (auto simp: recordOf_fields)
qed

theorem extraction_yields_records_witness:
  "\<exists>s. exec (lockstep 30) (Tee (produceFakeRecords 30) None) = Some s \<and>
       emitted (prod s) = map recordOf [1..30] \<and> length (emitted (prod s)) = 30"
proof -
  have e: "src_Extract IcebergSource lakeConfig = Inr (produceFakeRecords 30)"
    by (simp add: src_Extract_def src_Validate_def IcebergSource_def lakeConfig_def lookup_def)
  obtain s where s: "exec (lockstep 30) (Tee (produceFakeRecords 30) None) = Some s"
    "closed (prod s)"
    using exec_lockstep [of 30] by auto
  have c: "Cancel \<notin> set (lockstep 30)"
    by (simp add: lockstep_def)
  from extraction_yields_records [OF e s(1) c s(2)] s(1) show ?thesis
    by (simp add: IcebergSource_def)
qed

text \<open>
  C3. At every moment the counter is the number of records the loader has received, plus
  one while the forwarder holds a record it has counted and not handed on.
\<close>

lemma counter_ahead_by_at_most_one:
  assumes "exec sched (Tee p v) = Some s"
  shows "counter s = int (length (loaded s)) + unsent (tee s)"
  using exec_count_ok [OF assms Tee_count_ok] by (simp add: count_ok_def)

text \<open>
  C3 at two runs of the nightly pipeline. In the first the forwarder has counted the first
  record when the context is cancelled; the loader has received none, takes the
  cancellation and returns: the result reports one record. In the second the producer
  takes the cancellation and closes, the forwarder closes, and the loader's
  \<^verbatim>\<open>select\<close> takes the closed channel: the result reports no error.
\<close>

theorem Run_cancelled_count_ahead:
  "map_option (\<lambda>s. (length (loaded s), counter s))
     (exec [LoadValidate, ProduceSend, TeeCount, Cancel] (Tee (produceFakeRecords 50) None)) =
     Some (0, 1) \<and>
   Run [LoadValidate, ProduceSend, TeeCount, Cancel, LoadCancelled, Finish] 7 9 ''nightly-sync''
       \<lparr>registry = NewRegistry, store = [''nightly-sync'' \<mapsto> nightlySync]\<rparr> =
     Some (\<lparr>PipelineName = ''nightly-sync'', StartedAt = 7, FinishedAt = 9, Records = 1,
             Error = ''context canceled''\<rparr>,
           \<lparr>registry = NewRegistry, store = [''nightly-sync'' \<mapsto> nightlySync]\<rparr>) \<and>
   Run_inline [LoadValidate, ProduceSend, TeeCount, Cancel, LoadCancelled, Finish] 7 9
       ''nightly-sync''
       \<lparr>registry = NewRegistry, store = [''nightly-sync'' \<mapsto> nightlySync]\<rparr> =
     Some (\<lparr>PipelineName = ''nightly-sync'', StartedAt = 7, FinishedAt = 9, Records = 1,
             Error = ''context canceled''\<rparr>,
           \<lparr>registry = NewRegistry, store = [''nightly-sync'' \<mapsto> nightlySync]\<rparr>) \<and>
   Run [LoadValidate, Cancel, ProduceCancelled, TeeEnd, LoadEnd, Finish] 7 9 ''nightly-sync''
       \<lparr>registry = NewRegistry, store = [''nightly-sync'' \<mapsto> nightlySync]\<rparr> =
     Some (\<lparr>PipelineName = ''nightly-sync'', StartedAt = 7, FinishedAt = 9, Records = 0,
             Error = []\<rparr>,
           \<lparr>registry = NewRegistry, store = [''nightly-sync'' \<mapsto> nightlySync]\<rparr>)"
  by (simp add: Run_def Run_inline_def getConfig_def newResult_def finish_def
      mysql_postgres_connectors nightlySync_def src_Extract_def src_Validate_def
      dst_Validate_def newSimpleSource_def newSimpleDestination_def dbConfig_valid
      dst_Load_def Tee_def produceFakeRecords_def SourceByName_def DestinationByName_def
      NewRegistry_mysql_source NewRegistry_postgres_destination)

end
